theory Spec2Isabelle
  imports Main "HOL-Library.Word"
begin

unbundle bit_operations_syntax

section \<open>Data model of utf\_convert.cpp\<close>

type_synonym uint8_t = "8 word"
type_synonym uint16_t = "16 word"
type_synonym uint32_t = "32 word"

text \<open>
  Modelled from the spec: the enumeration \<open>utf_convert::UTF_ENDIAN\<close> is declared in
  \<open>utf_convert.hpp\<close>, which is not among the sources. The spec gives it the two members
  big endian and little endian. The encoder of UTF-32 has a third branch for a value that
  is neither (\<open>return false;  // Unsupported endian\<close>), so the model has a third
  constructor that stands for any value of the C++ enumeration type that equals neither
  member.
\<close>

datatype UTF_ENDIAN =
    UTF_ENDIAN_BIG_ENDIAN
  | UTF_ENDIAN_LITTLE_ENDIAN
  | UTF_ENDIAN_UNSUPPORTED

text \<open>
  \<open>union utf32_character { char32_t ch; uint8_t v[4]; }\<close> and
  \<open>union utf16_character { char16_t ch; uint8_t v[2]; }\<close>. Every function of the file
  reads and writes characters through the bytes \<open>v[k]\<close> (or through a \<open>uint8_t\<close>
  pointer to the string's storage), so a character is modelled by its bytes in memory
  order: \<open>v32_0\<close> is \<open>v[0]\<close>, the byte at the lowest address.
\<close>

record utf32_character =
  v32_0 :: uint8_t
  v32_1 :: uint8_t
  v32_2 :: uint8_t
  v32_3 :: uint8_t

record utf16_character =
  v16_0 :: uint8_t
  v16_1 :: uint8_t

text \<open>
  \<open>std::string\<close> is a list of bytes, \<open>std::u32string\<close> and \<open>std::u16string\<close> are
  lists of characters. A function that fills the reference parameter \<open>target\<close> and returns
  \<open>bool\<close> takes the old content of \<open>target\<close> and returns the pair of the \<open>bool\<close> and
  the new content.
\<close>

type_synonym u8string = "uint8_t list"
type_synonym u32string = "utf32_character list"
type_synonym u16string = "utf16_character list"

section \<open>Encoding UTF-32 to UTF-8\<close>

text \<open>
  Lines 38 to 48: the value of the character at \<open>cur\<close> under the byte order \<open>endian\<close>;
  \<open>None\<close> is the branch \<open>return false;  // Unsupported endian\<close>.
\<close>

definition u32_endian_value :: "utf32_character \<Rightarrow> UTF_ENDIAN \<Rightarrow> uint32_t option" where
  "u32_endian_value cur endian =
     (if endian = UTF_ENDIAN_BIG_ENDIAN then
        Some (push_bit 24 (ucast (v32_0 cur)) OR push_bit 16 (ucast (v32_1 cur)) OR
              push_bit 8 (ucast (v32_2 cur)) OR ucast (v32_3 cur))
      else if endian = UTF_ENDIAN_LITTLE_ENDIAN then
        Some (push_bit 24 (ucast (v32_3 cur)) OR push_bit 16 (ucast (v32_2 cur)) OR
              push_bit 8 (ucast (v32_1 cur)) OR ucast (v32_0 cur))
      else None)"

text \<open>
  The loop of lines 34 to 92 over the \<open>u32size\<close> characters at \<open>u32str\<close>.
  \<open>target.push_back(e)\<close> converts the \<open>uint32_t\<close> expression \<open>e\<close> to \<open>char\<close>, which
  keeps its low eight bits (\<open>ucast\<close>).
\<close>

fun convert_u32str_to_u8str_without_bom ::
  "u32string \<Rightarrow> UTF_ENDIAN \<Rightarrow> u8string \<Rightarrow> bool \<times> u8string" where
  "convert_u32str_to_u8str_without_bom [] endian target = (True, target)"
| "convert_u32str_to_u8str_without_bom (cur # rest) endian target =
     (case u32_endian_value cur endian of
        None \<Rightarrow> (False, target)
      | Some val \<Rightarrow>
          if val < 0x80 then
            convert_u32str_to_u8str_without_bom rest endian
              (target @ [ucast val])
          else if val < 0x0800 then
            convert_u32str_to_u8str_without_bom rest endian
              (target @ [ucast (((drop_bit 6 val) AND 0x1f) OR 0xc0),
                         ucast ((val AND 0x3f) OR 0x80)])
          else if val < 0x010000 then
            convert_u32str_to_u8str_without_bom rest endian
              (target @ [ucast (((drop_bit 12 val) AND 0x0f) OR 0xe0),
                         ucast (((drop_bit 6 val) AND 0x3f) OR 0x80),
                         ucast ((val AND 0x3f) OR 0x80)])
          else if val < 0x110000 then
            convert_u32str_to_u8str_without_bom rest endian
              (target @ [ucast (((drop_bit 18 val) AND 0x07) OR 0xf0),
                         ucast (((drop_bit 12 val) AND 0x3f) OR 0x80),
                         ucast (((drop_bit 6 val) AND 0x3f) OR 0x80),
                         ucast ((val AND 0x3f) OR 0x80)])
          else (False, target))"

text \<open>\<open>utf_convert::to_u8string(u32str_without_bom, u32str_endian, target)\<close>, lines 359 to 369.\<close>

definition to_u8string_u32 :: "u32string \<Rightarrow> UTF_ENDIAN \<Rightarrow> u8string \<Rightarrow> bool \<times> u8string" where
  "to_u8string_u32 u32str_without_bom u32str_endian target =
     convert_u32str_to_u8str_without_bom u32str_without_bom u32str_endian []"

section \<open>Encoding UTF-16 to UTF-8\<close>

text \<open>
  \<open>get_u16_endian_value\<close>, lines 19 to 28. The \<open>switch\<close> has the two cases of the
  enumeration and no default: for any other value control reaches the end of a function
  that returns \<open>uint16_t\<close>, which C++ leaves undefined. That outcome is \<open>None\<close>.
\<close>

definition get_u16_endian_value :: "utf16_character \<Rightarrow> UTF_ENDIAN \<Rightarrow> uint16_t option" where
  "get_u16_endian_value src endian =
     (case endian of
        UTF_ENDIAN_BIG_ENDIAN \<Rightarrow> Some (push_bit 8 (ucast (v16_0 src)) OR ucast (v16_1 src))
      | UTF_ENDIAN_LITTLE_ENDIAN \<Rightarrow> Some (push_bit 8 (ucast (v16_1 src)) OR ucast (v16_0 src))
      | UTF_ENDIAN_UNSUPPORTED \<Rightarrow> None)"

text \<open>
  The loop of lines 99 to 138. The result \<open>None\<close> is the undefined outcome of
  \<open>get_u16_endian_value\<close>; \<open>Some (False, t)\<close> is \<open>return false\<close> with \<open>target\<close> holding
  \<open>t\<close>. In the surrogate branch \<open>i + 1 >= u16length\<close> holds exactly when no unit follows
  \<open>cur\<close>; otherwise \<open>i++\<close> makes the following unit the low half and the \<open>for\<close> loop's own
  \<open>i++\<close> continues behind it. \<open>high\<close>, \<open>low\<close> and \<open>code_point\<close> are \<open>uint32_t\<close>.
\<close>

fun convert_u16str_to_u8str_without_bom ::
  "u16string \<Rightarrow> UTF_ENDIAN \<Rightarrow> u8string \<Rightarrow> (bool \<times> u8string) option" where
  "convert_u16str_to_u8str_without_bom [] endian target = Some (True, target)"
| "convert_u16str_to_u8str_without_bom (cur # rest) endian target =
     (case get_u16_endian_value cur endian of
        None \<Rightarrow> None
      | Some val \<Rightarrow>
          if val < 0x80 then
            convert_u16str_to_u8str_without_bom rest endian
              (target @ [ucast val])
          else if val < 0x0800 then
            convert_u16str_to_u8str_without_bom rest endian
              (target @ [ucast (((drop_bit 6 val) AND 0x1f) OR 0xc0),
                         ucast ((val AND 0x3f) OR 0x80)])
          else if val \<ge> 0xd800 \<and> val < 0xdc00 then
            (case rest of
               [] \<Rightarrow> Some (False, target)
             | nxt # rest' \<Rightarrow>
                 (case get_u16_endian_value nxt endian of
                    None \<Rightarrow> None
                  | Some low16 \<Rightarrow>
                      let high = (ucast val :: uint32_t);
                          low = (ucast low16 :: uint32_t)
                      in if low < 0xdc00 then Some (False, target)
                         else
                           let code_point =
                                 (push_bit 10 (high - 0xd800) OR (low - 0xdc00)) + 0x10000
                           in convert_u16str_to_u8str_without_bom rest' endian
                                (target @ [ucast ((drop_bit 18 code_point) OR 0xf0),
                                           ucast (((drop_bit 12 code_point) AND 0x3f) OR 0x80),
                                           ucast (((drop_bit 6 code_point) AND 0x3f) OR 0x80),
                                           ucast ((code_point AND 0x3f) OR 0x80)])))
          else
            convert_u16str_to_u8str_without_bom rest endian
              (target @ [ucast (((drop_bit 12 val) AND 0x0f) OR 0xe0),
                         ucast (((drop_bit 6 val) AND 0x3f) OR 0x80),
                         ucast ((val AND 0x3f) OR 0x80)]))"

text \<open>\<open>utf_convert::to_u8string(u16str, u16str_endian, target)\<close>, lines 402 to 411.\<close>

definition to_u8string_u16 ::
  "u16string \<Rightarrow> UTF_ENDIAN \<Rightarrow> u8string \<Rightarrow> (bool \<times> u8string) option" where
  "to_u8string_u16 u16str u16str_endian target =
     convert_u16str_to_u8str_without_bom u16str u16str_endian []"

section \<open>Byte order marks\<close>

text \<open>\<open>get_u32_str_bom\<close>, lines 141 to 158; \<open>return 0\<close> is the character of four zero bytes.\<close>

definition get_u32_str_bom :: "UTF_ENDIAN \<Rightarrow> utf32_character" where
  "get_u32_str_bom endian =
     (if endian = UTF_ENDIAN_BIG_ENDIAN then
        \<lparr>v32_0 = 0x00, v32_1 = 0x00, v32_2 = 0xfe, v32_3 = 0xff\<rparr>
      else if endian = UTF_ENDIAN_LITTLE_ENDIAN then
        \<lparr>v32_0 = 0xff, v32_1 = 0xfe, v32_2 = 0x00, v32_3 = 0x00\<rparr>
      else \<lparr>v32_0 = 0, v32_1 = 0, v32_2 = 0, v32_3 = 0\<rparr>)"

text \<open>\<open>match_u32_bom\<close>, lines 160 to 171.\<close>

definition match_u32_bom :: "utf32_character \<Rightarrow> UTF_ENDIAN \<Rightarrow> bool" where
  "match_u32_bom u32 endian =
     (if v32_0 u32 = 0x00 \<and> v32_1 u32 = 0x00 \<and> v32_2 u32 = 0xfe \<and> v32_3 u32 = 0xff then
        endian = UTF_ENDIAN_BIG_ENDIAN
      else if v32_0 u32 = 0xff \<and> v32_1 u32 = 0xfe \<and> v32_2 u32 = 0x00 \<and> v32_3 u32 = 0x00 then
        endian = UTF_ENDIAN_LITTLE_ENDIAN
      else False)"

text \<open>\<open>match_u16_bom\<close>, lines 173 to 182.\<close>

definition match_u16_bom :: "utf16_character \<Rightarrow> UTF_ENDIAN \<Rightarrow> bool" where
  "match_u16_bom u16 endian =
     (if v16_0 u16 = 0xfe \<and> v16_1 u16 = 0xff then endian = UTF_ENDIAN_BIG_ENDIAN
      else if v16_0 u16 = 0xff \<and> v16_1 u16 = 0xfe then endian = UTF_ENDIAN_LITTLE_ENDIAN
      else False)"

text \<open>
  \<open>utf_convert::to_u8string(u32str_with_bom, target)\<close>, lines 371 to 400. When the string is
  empty the function returns before \<open>target.clear()\<close>, so \<open>target\<close> keeps its content.
  \<open>u32str_ptr + 4\<close> with \<open>size() - 1\<close> characters is the string without its first character.
\<close>

definition to_u8string_u32_bom :: "u32string \<Rightarrow> u8string \<Rightarrow> bool \<times> u8string" where
  "to_u8string_u32_bom u32str_with_bom target =
     (if u32str_with_bom = [] then (False, target)
      else if match_u32_bom (u32str_with_bom ! 0) UTF_ENDIAN_BIG_ENDIAN then
        convert_u32str_to_u8str_without_bom (tl u32str_with_bom) UTF_ENDIAN_BIG_ENDIAN []
      else if match_u32_bom (u32str_with_bom ! 0) UTF_ENDIAN_LITTLE_ENDIAN then
        convert_u32str_to_u8str_without_bom (tl u32str_with_bom) UTF_ENDIAN_LITTLE_ENDIAN []
      else (False, []))"

text \<open>
  \<open>std::u16string::operator[](pos)\<close>: the character at \<open>pos\<close> when \<open>pos < size()\<close>, and
  the null character \<open>char16_t()\<close> when \<open>pos == size()\<close>. A larger \<open>pos\<close> is undefined in
  C++; no function of the file reads there.
\<close>

definition u16string_at :: "u16string \<Rightarrow> nat \<Rightarrow> utf16_character" where
  "u16string_at s pos = (if pos < length s then s ! pos else \<lparr>v16_0 = 0, v16_1 = 0\<rparr>)"

text \<open>
  \<open>utf_convert::to_u8string(u16str_with_bom, target)\<close>, lines 413 to 438. The character given
  to \<open>match_u16_bom\<close> is \<open>u16str_with_bom[1]\<close>. \<open>u16str_ptr\<close> is two bytes behind the start
  of the storage, and the length passed on is \<open>size() - 1\<close>.
\<close>

definition to_u8string_u16_bom :: "u16string \<Rightarrow> u8string \<Rightarrow> (bool \<times> u8string) option" where
  "to_u8string_u16_bom u16str_with_bom target =
     (if u16str_with_bom = [] then Some (False, target)
      else if match_u16_bom (u16string_at u16str_with_bom 1) UTF_ENDIAN_BIG_ENDIAN then
        convert_u16str_to_u8str_without_bom (tl u16str_with_bom) UTF_ENDIAN_BIG_ENDIAN []
      else if match_u16_bom (u16string_at u16str_with_bom 1) UTF_ENDIAN_LITTLE_ENDIAN then
        convert_u16str_to_u8str_without_bom (tl u16str_with_bom) UTF_ENDIAN_LITTLE_ENDIAN []
      else Some (False, []))"

section \<open>Decoding UTF-8 to UTF-32\<close>

text \<open>
  The loop of \<open>convert_u8str_to_u32str_little_endian\<close>, lines 188 to 268, started at index
  \<open>i\<close>. \<open>u8str[i]\<close> is a \<open>char\<close>; every test and every assignment masks it with a
  constant below \<open>0x100\<close> and stores into a \<open>uint8_t\<close>, so the result is the same eight-bit
  computation whether \<open>char\<close> is signed or not. \<open>(u8str[i] & 0x7f) == u8str[i]\<close> holds
  exactly when the top bit of the byte is clear.
\<close>

function convert_u8str_to_u32str_little_endian_from ::
  "u8string \<Rightarrow> nat \<Rightarrow> u32string \<Rightarrow> bool \<times> u32string" where
  "convert_u8str_to_u32str_little_endian_from u8str i target =
     (if i < length u8str then
        if (u8str ! i) AND 0xf0 = 0xf0 then
          if i + 3 \<ge> length u8str then (False, target)
          else convert_u8str_to_u32str_little_endian_from u8str (i + 4)
            (target @
              [\<lparr>v32_0 = push_bit 6 ((u8str ! (i + 2)) AND 0x03) OR ((u8str ! (i + 3)) AND 0x3f),
                v32_1 = push_bit 4 ((u8str ! (i + 1)) AND 0x0f) OR
                        drop_bit 2 ((u8str ! (i + 2)) AND 0x3c),
                v32_2 = push_bit 2 ((u8str ! i) AND 0x07) OR
                        drop_bit 4 ((u8str ! (i + 1)) AND 0x30),
                v32_3 = 0\<rparr>])
        else if (u8str ! i) AND 0xe0 = 0xe0 then
          if i + 2 \<ge> length u8str then (False, target)
          else convert_u8str_to_u32str_little_endian_from u8str (i + 3)
            (target @
              [\<lparr>v32_0 = push_bit 6 ((u8str ! (i + 1)) AND 0x03) OR ((u8str ! (i + 2)) AND 0x3f),
                v32_1 = push_bit 4 ((u8str ! i) AND 0x0f) OR
                        drop_bit 2 ((u8str ! (i + 1)) AND 0x3c),
                v32_2 = 0,
                v32_3 = 0\<rparr>])
        else if (u8str ! i) AND 0xc0 = 0xc0 then
          if i + 1 \<ge> length u8str then (False, target)
          else convert_u8str_to_u32str_little_endian_from u8str (i + 2)
            (target @
              [\<lparr>v32_0 = push_bit 6 ((u8str ! i) AND 0x03) OR ((u8str ! (i + 1)) AND 0x3f),
                v32_1 = drop_bit 2 ((u8str ! i) AND 0x1c),
                v32_2 = 0,
                v32_3 = 0\<rparr>])
        else if (u8str ! i) AND 0x7f = u8str ! i then
          convert_u8str_to_u32str_little_endian_from u8str (i + 1)
            (target @ [\<lparr>v32_0 = u8str ! i, v32_1 = 0, v32_2 = 0, v32_3 = 0\<rparr>])
        else (False, target)
      else (True, target))"
  by pat_completeness auto
termination
  by (relation "measure (\<lambda>(u8str, i, target). length u8str - i)") auto

definition convert_u8str_to_u32str_little_endian ::
  "u8string \<Rightarrow> u32string \<Rightarrow> bool \<times> u32string" where
  "convert_u8str_to_u32str_little_endian u8str target =
     convert_u8str_to_u32str_little_endian_from u8str 0 target"

text \<open>The loop of \<open>convert_u8str_to_u32str_big_endian\<close>, lines 275 to 355.\<close>

function convert_u8str_to_u32str_big_endian_from ::
  "u8string \<Rightarrow> nat \<Rightarrow> u32string \<Rightarrow> bool \<times> u32string" where
  "convert_u8str_to_u32str_big_endian_from u8str i target =
     (if i < length u8str then
        if (u8str ! i) AND 0xf0 = 0xf0 then
          if i + 3 \<ge> length u8str then (False, target)
          else convert_u8str_to_u32str_big_endian_from u8str (i + 4)
            (target @
              [\<lparr>v32_0 = 0,
                v32_1 = push_bit 2 ((u8str ! i) AND 0x07) OR
                        drop_bit 4 ((u8str ! (i + 1)) AND 0x30),
                v32_2 = push_bit 4 ((u8str ! (i + 1)) AND 0x0f) OR
                        drop_bit 2 ((u8str ! (i + 2)) AND 0x3c),
                v32_3 = push_bit 6 ((u8str ! (i + 2)) AND 0x03) OR ((u8str ! (i + 3)) AND 0x3f)\<rparr>])
        else if (u8str ! i) AND 0xe0 = 0xe0 then
          if i + 2 \<ge> length u8str then (False, target)
          else convert_u8str_to_u32str_big_endian_from u8str (i + 3)
            (target @
              [\<lparr>v32_0 = 0,
                v32_1 = 0,
                v32_2 = push_bit 4 ((u8str ! i) AND 0x0f) OR
                        drop_bit 2 ((u8str ! (i + 1)) AND 0x3c),
                v32_3 = push_bit 6 ((u8str ! (i + 1)) AND 0x03) OR ((u8str ! (i + 2)) AND 0x3f)\<rparr>])
        else if (u8str ! i) AND 0xc0 = 0xc0 then
          if i + 1 \<ge> length u8str then (False, target)
          else convert_u8str_to_u32str_big_endian_from u8str (i + 2)
            (target @
              [\<lparr>v32_0 = 0,
                v32_1 = 0,
                v32_2 = drop_bit 2 ((u8str ! i) AND 0x1c),
                v32_3 = push_bit 6 ((u8str ! i) AND 0x03) OR ((u8str ! (i + 1)) AND 0x3f)\<rparr>])
        else if (u8str ! i) AND 0x7f = u8str ! i then
          convert_u8str_to_u32str_big_endian_from u8str (i + 1)
            (target @ [\<lparr>v32_0 = 0, v32_1 = 0, v32_2 = 0, v32_3 = u8str ! i\<rparr>])
        else (False, target)
      else (True, target))"
  by pat_completeness auto
termination
  by (relation "measure (\<lambda>(u8str, i, target). length u8str - i)") auto

definition convert_u8str_to_u32str_big_endian ::
  "u8string \<Rightarrow> u32string \<Rightarrow> bool \<times> u32string" where
  "convert_u8str_to_u32str_big_endian u8str target =
     convert_u8str_to_u32str_big_endian_from u8str 0 target"

text \<open>\<open>utf_convert::to_u32string\<close>, lines 440 to 454.\<close>

definition to_u32string ::
  "u8string \<Rightarrow> u32string \<Rightarrow> UTF_ENDIAN \<Rightarrow> bool \<Rightarrow> bool \<times> u32string" where
  "to_u32string u8str target target_endian add_bom =
     (let cleared = (if add_bom then [get_u32_str_bom target_endian] else [])
      in if target_endian = UTF_ENDIAN_LITTLE_ENDIAN then
           convert_u8str_to_u32str_little_endian u8str cleared
         else convert_u8str_to_u32str_big_endian u8str cleared)"

section \<open>Notions used to state the properties\<close>

text \<open>
  The character that holds the 32-bit value \<open>v\<close> in the byte order \<open>endian\<close>: the
  memory layout that \<open>u32_endian_value\<close> reads back as \<open>v\<close>.
\<close>

definition u32_char_of :: "UTF_ENDIAN \<Rightarrow> uint32_t \<Rightarrow> utf32_character" where
  "u32_char_of endian v =
     (if endian = UTF_ENDIAN_LITTLE_ENDIAN then
        \<lparr>v32_0 = ucast v, v32_1 = ucast (drop_bit 8 v),
         v32_2 = ucast (drop_bit 16 v), v32_3 = ucast (drop_bit 24 v)\<rparr>
      else
        \<lparr>v32_0 = ucast (drop_bit 24 v), v32_1 = ucast (drop_bit 16 v),
         v32_2 = ucast (drop_bit 8 v), v32_3 = ucast v\<rparr>)"

text \<open>
  The number of bytes the spec gives a value (section 4.1): 1 below \<open>0x80\<close>, 2 below
  \<open>0x800\<close>, 3 below \<open>0x10000\<close>, 4 otherwise.
\<close>

definition spec_utf8_length :: "uint32_t \<Rightarrow> nat" where
  "spec_utf8_length v =
     (if v < 0x80 then 1 else if v < 0x800 then 2 else if v < 0x10000 then 3 else 4)"

text \<open>
  \<open>utf8_sequence_of bs v\<close>: the bytes \<open>bs\<close> are one UTF-8 sequence for the value \<open>v\<close>
  in the bit patterns of the spec: \<open>0xxxxxxx\<close>; \<open>110xxxxx 10xxxxxx\<close>;
  \<open>1110xxxx 10xxxxxx 10xxxxxx\<close>; \<open>11110xxx 10xxxxxx 10xxxxxx 10xxxxxx\<close>; the bits
  marked \<open>x\<close>, read from left to right, are the binary digits of \<open>v\<close>.
\<close>

fun utf8_sequence_of :: "u8string \<Rightarrow> uint32_t \<Rightarrow> bool" where
  "utf8_sequence_of [b0] v \<longleftrightarrow> b0 AND 0x80 = 0 \<and> ucast b0 = v"
| "utf8_sequence_of [b0, b1] v \<longleftrightarrow>
     b0 AND 0xe0 = 0xc0 \<and> b1 AND 0xc0 = 0x80 \<and>
     push_bit 6 (ucast (b0 AND 0x1f)) OR ucast (b1 AND 0x3f) = v"
| "utf8_sequence_of [b0, b1, b2] v \<longleftrightarrow>
     b0 AND 0xf0 = 0xe0 \<and> b1 AND 0xc0 = 0x80 \<and> b2 AND 0xc0 = 0x80 \<and>
     push_bit 12 (ucast (b0 AND 0x0f)) OR push_bit 6 (ucast (b1 AND 0x3f)) OR
     ucast (b2 AND 0x3f) = v"
| "utf8_sequence_of [b0, b1, b2, b3] v \<longleftrightarrow>
     b0 AND 0xf8 = 0xf0 \<and> b1 AND 0xc0 = 0x80 \<and> b2 AND 0xc0 = 0x80 \<and> b3 AND 0xc0 = 0x80 \<and>
     push_bit 18 (ucast (b0 AND 0x07)) OR push_bit 12 (ucast (b1 AND 0x3f)) OR
     push_bit 6 (ucast (b2 AND 0x3f)) OR ucast (b3 AND 0x3f) = v"
| "utf8_sequence_of _ v \<longleftrightarrow> False"

text \<open>
  The bytes that one pass through the loop body of
  \<open>convert_u32str_to_u8str_without_bom\<close> (lines 50 to 90) appends for the value \<open>val\<close>;
  no bytes when the pass returns \<open>false\<close>.
\<close>

definition pushed_u32 :: "uint32_t \<Rightarrow> u8string" where
  "pushed_u32 val =
     (if val < 0x80 then [ucast val]
      else if val < 0x0800 then
        [ucast (((drop_bit 6 val) AND 0x1f) OR 0xc0), ucast ((val AND 0x3f) OR 0x80)]
      else if val < 0x010000 then
        [ucast (((drop_bit 12 val) AND 0x0f) OR 0xe0),
         ucast (((drop_bit 6 val) AND 0x3f) OR 0x80),
         ucast ((val AND 0x3f) OR 0x80)]
      else if val < 0x110000 then
        [ucast (((drop_bit 18 val) AND 0x07) OR 0xf0),
         ucast (((drop_bit 12 val) AND 0x3f) OR 0x80),
         ucast (((drop_bit 6 val) AND 0x3f) OR 0x80),
         ucast ((val AND 0x3f) OR 0x80)]
      else [])"

text \<open>
  The bytes that the loop body of \<open>convert_u16str_to_u8str_without_bom\<close> appends in its
  last branch (lines 133 to 135) for the unit \<open>val\<close>, and in its surrogate branch (lines
  114 to 131) for the unit \<open>val\<close> and the following unit \<open>low16\<close>.
\<close>

definition pushed_u16_three :: "uint16_t \<Rightarrow> u8string" where
  "pushed_u16_three val =
     [ucast (((drop_bit 12 val) AND 0x0f) OR 0xe0),
      ucast (((drop_bit 6 val) AND 0x3f) OR 0x80),
      ucast ((val AND 0x3f) OR 0x80)]"

definition pushed_u16_pair :: "uint16_t \<Rightarrow> uint16_t \<Rightarrow> u8string" where
  "pushed_u16_pair val low16 =
     (let high = (ucast val :: uint32_t);
          low = (ucast low16 :: uint32_t);
          code_point = (push_bit 10 (high - 0xd800) OR (low - 0xdc00)) + 0x10000
      in [ucast ((drop_bit 18 code_point) OR 0xf0),
          ucast (((drop_bit 12 code_point) AND 0x3f) OR 0x80),
          ucast (((drop_bit 6 code_point) AND 0x3f) OR 0x80),
          ucast ((code_point AND 0x3f) OR 0x80)])"

text \<open>
  The classification of a lead byte in the words of the spec (section 4.3). A byte is a
  stray continuation byte when its top bit is set and it matches none of the three masks.
  Otherwise its sequence has 4, 3, 2 or 1 bytes, by the first mask it matches.
\<close>

definition stray_continuation :: "uint8_t \<Rightarrow> bool" where
  "stray_continuation b \<longleftrightarrow>
     b AND 0x80 \<noteq> 0 \<and> b AND 0xf0 \<noteq> 0xf0 \<and> b AND 0xe0 \<noteq> 0xe0 \<and> b AND 0xc0 \<noteq> 0xc0"

definition classified_length :: "uint8_t \<Rightarrow> nat" where
  "classified_length b =
     (if b AND 0xf0 = 0xf0 then 4 else if b AND 0xe0 = 0xe0 then 3
      else if b AND 0xc0 = 0xc0 then 2 else 1)"

text \<open>
  The two ways a lead byte at index \<open>j\<close> makes the decoder fail: it is a stray
  continuation byte, or its sequence needs more bytes than the input holds from \<open>j\<close> on.
\<close>

definition fails_at :: "u8string \<Rightarrow> nat \<Rightarrow> bool" where
  "fails_at u8str j \<longleftrightarrow>
     stray_continuation (u8str ! j) \<or> length u8str < j + classified_length (u8str ! j)"

text \<open>
  \<open>loop_reaches u8str i j\<close>: a loop that stands at index \<open>i\<close> and consumes one whole
  sequence after the other stands at index \<open>j\<close> at some point. The indices reached from
  0 are the positions whose byte is read as a lead byte.
\<close>

inductive loop_reaches :: "u8string \<Rightarrow> nat \<Rightarrow> nat \<Rightarrow> bool" where
  here: "loop_reaches u8str i i"
| step: "i < length u8str \<Longrightarrow> \<not> fails_at u8str i \<Longrightarrow>
         loop_reaches u8str (i + classified_length (u8str ! i)) j \<Longrightarrow>
         loop_reaches u8str i j"

code_pred loop_reaches .

section \<open>Bitwise reasoning on bytes and 32-bit values\<close>

text \<open>
  Two words are equal when their bits are: a byte has eight of them, a 32-bit value four
  bytes. A value below a power of two has no bit at or above the exponent.
\<close>

lemma byte_eqI:
  fixes a b :: "8 word"
  assumes "bit a 0 = bit b 0" "bit a 1 = bit b 1" "bit a 2 = bit b 2" "bit a 3 = bit b 3"
    "bit a 4 = bit b 4" "bit a 5 = bit b 5" "bit a 6 = bit b 6" "bit a 7 = bit b 7"
  shows "a = b"
proof (rule bit_word_eqI)
  fix n assume "n < LENGTH(8)"
  then have "n \<in> {0,1,2,3,4,5,6,7}" by auto
  with assms show "bit a n = bit b n" by auto
qed

lemma word32_eq_bytesI:
  fixes a b :: "32 word"
  assumes "(ucast a :: 8 word) = ucast b"
    and "(ucast (drop_bit 8 a) :: 8 word) = ucast (drop_bit 8 b)"
    and "(ucast (drop_bit 16 a) :: 8 word) = ucast (drop_bit 16 b)"
    and "(ucast (drop_bit 24 a) :: 8 word) = ucast (drop_bit 24 b)"
  shows "a = b"
proof (rule bit_word_eqI)
  fix n assume n: "n < LENGTH(32)"
  consider "n < 8" | "8 \<le> n" "n < 16" | "16 \<le> n" "n < 24" | "24 \<le> n" "n < 32"
    using n by fastforce
  then show "bit a n = bit b n"
  proof cases
    case 1
    from assms(1) have "bit (ucast a :: 8 word) n = bit (ucast b :: 8 word) n" by simp
    with 1 show ?thesis by (simp add: bit_simps)
  next
    case 2
    from assms(2) have "bit (ucast (drop_bit 8 a) :: 8 word) (n - 8) = bit (ucast (drop_bit 8 b) :: 8 word) (n - 8)" by simp
    moreover have "n - 8 < 8" using 2 by arith
    ultimately have "bit a (8 + (n - 8)) = bit b (8 + (n - 8))" by (simp add: bit_simps)
    with 2 show ?thesis by simp
  next
    case 3
    from assms(3) have "bit (ucast (drop_bit 16 a) :: 8 word) (n - 16) = bit (ucast (drop_bit 16 b) :: 8 word) (n - 16)" by simp
    moreover have "n - 16 < 8" using 3 by arith
    ultimately have "bit a (16 + (n - 16)) = bit b (16 + (n - 16))" by (simp add: bit_simps)
    with 3 show ?thesis by simp
  next
    case 4
    from assms(4) have "bit (ucast (drop_bit 24 a) :: 8 word) (n - 24) = bit (ucast (drop_bit 24 b) :: 8 word) (n - 24)" by simp
    moreover have "n - 24 < 8" using 4 by arith
    ultimately have "bit a (24 + (n - 24)) = bit b (24 + (n - 24))" by (simp add: bit_simps)
    with 4 show ?thesis by simp
  qed
qed

lemma hi_bits_zero:
  fixes v :: "32 word"
  assumes "v < 2 ^ k" "k \<le> n"
  shows "\<not> bit v n"
  using assms
  by (metis bit_take_bit_iff less_mask_eq not_le take_bit_eq_mask)

lemma below_0x80: "(v::32 word) < 0x80 \<Longrightarrow> 7 \<le> n \<Longrightarrow> \<not> bit v n"
  using hi_bits_zero[of v 7 n] by simp
lemma below_0x800: "(v::32 word) < 0x800 \<Longrightarrow> 11 \<le> n \<Longrightarrow> \<not> bit v n"
  using hi_bits_zero[of v 11 n] by simp
lemma below_0x10000: "(v::32 word) < 0x10000 \<Longrightarrow> 16 \<le> n \<Longrightarrow> \<not> bit v n"
  using hi_bits_zero[of v 16 n] by simp
lemma below_0x110000: "(v::32 word) < 0x110000 \<Longrightarrow> 21 \<le> n \<Longrightarrow> \<not> bit v n"
proof -
  assume "v < 0x110000" "21 \<le> n"
  moreover have "(0x110000::32 word) < 2 ^ 21" by simp
  ultimately have "v < 2 ^ 21" by (meson order.strict_trans)
  then show ?thesis using \<open>21 \<le> n\<close> by (rule hi_bits_zero)
qed

lemma u32_endian_value_char_of:
  "endian \<noteq> UTF_ENDIAN_UNSUPPORTED \<Longrightarrow> u32_endian_value (u32_char_of endian v) endian = Some v"
  apply (cases endian)
  apply (simp_all add: u32_endian_value_def u32_char_of_def)
   apply (rule word32_eq_bytesI; rule byte_eqI; simp add: bit_simps)
   apply (rule word32_eq_bytesI; rule byte_eqI; simp add: bit_simps)
  done

lemma one_byte_sequence: "(v::32 word) < 0x80 \<Longrightarrow> utf8_sequence_of [ucast v] v"
  apply simp
  apply (rule conjI)
   apply (rule byte_eqI; simp add: bit_simps below_0x80)
   apply (rule word32_eq_bytesI; rule byte_eqI; simp add: bit_simps below_0x80)
  done

lemma two_byte_sequence: "(v::32 word) < 0x800 \<Longrightarrow>
  utf8_sequence_of [ucast (((drop_bit 6 v) AND 0x1f) OR 0xc0), ucast ((v AND 0x3f) OR 0x80)] v"
  apply simp
  apply (intro conjI)
   apply (rule byte_eqI; simp add: bit_simps below_0x800)
   apply (rule byte_eqI; simp add: bit_simps below_0x800)
   apply (rule word32_eq_bytesI; rule byte_eqI; simp add: bit_simps below_0x800)
  done

lemma three_byte_sequence: "(v::32 word) < 0x10000 \<Longrightarrow>
  utf8_sequence_of [ucast (((drop_bit 12 v) AND 0x0f) OR 0xe0),
                         ucast (((drop_bit 6 v) AND 0x3f) OR 0x80),
                         ucast ((v AND 0x3f) OR 0x80)] v"
  apply simp
  apply (intro conjI)
   apply (rule byte_eqI; simp add: bit_simps below_0x10000)
   apply (rule byte_eqI; simp add: bit_simps below_0x10000)
   apply (rule byte_eqI; simp add: bit_simps below_0x10000)
   apply (rule word32_eq_bytesI; rule byte_eqI; simp add: bit_simps below_0x10000)
  done

lemma four_byte_sequence: "(v::32 word) < 0x110000 \<Longrightarrow>
  utf8_sequence_of [ucast (((drop_bit 18 v) AND 0x07) OR 0xf0),
                         ucast (((drop_bit 12 v) AND 0x3f) OR 0x80),
                         ucast (((drop_bit 6 v) AND 0x3f) OR 0x80),
                         ucast ((v AND 0x3f) OR 0x80)] v"
  apply simp
  apply (intro conjI)
   apply (rule byte_eqI; simp add: bit_simps below_0x110000)
   apply (rule byte_eqI; simp add: bit_simps below_0x110000)
   apply (rule byte_eqI; simp add: bit_simps below_0x110000)
   apply (rule byte_eqI; simp add: bit_simps below_0x110000)
   apply (rule word32_eq_bytesI; rule byte_eqI; simp add: bit_simps below_0x110000)
  done

section \<open>The UTF-32 encoder\<close>

text \<open>
  One pass of the loop appends \<open>pushed_u32 v\<close> for a value below \<open>0x110000\<close> and
  returns \<open>false\<close> otherwise; the whole loop succeeds exactly when every character has
  such a value.
\<close>

lemma u32_ranges:
  fixes v :: uint32_t
  shows "v < 0x80 \<Longrightarrow> v < 0x800" and "v < 0x800 \<Longrightarrow> v < 0x10000"
    and "v < 0x10000 \<Longrightarrow> v < 0x110000"
  by (simp_all add: word_less_nat_alt)

lemma convert_u32_Cons:
  assumes "u32_endian_value cur endian = Some v"
  shows "convert_u32str_to_u8str_without_bom (cur # rest) endian acc =
    (if v < 0x110000 then convert_u32str_to_u8str_without_bom rest endian (acc @ pushed_u32 v)
     else (False, acc))"
proof -
  consider (a) "v < 0x80" | (b) "\<not> v < 0x80" "v < 0x800"
    | (c) "\<not> v < 0x80" "\<not> v < 0x800" "v < 0x10000"
    | (d) "\<not> v < 0x80" "\<not> v < 0x800" "\<not> v < 0x10000"
    by blast
  then show ?thesis
  proof cases
    case a
    then have "v < 0x110000" by (blast intro: u32_ranges)
    with a assms show ?thesis by (simp add: pushed_u32_def)
  next
    case b
    then have "v < 0x110000" by (blast intro: u32_ranges)
    with b assms show ?thesis by (simp add: pushed_u32_def)
  next
    case c
    then have "v < 0x110000" by (blast intro: u32_ranges)
    with c assms show ?thesis by (simp add: pushed_u32_def)
  next
    case d
    with assms show ?thesis by (simp add: pushed_u32_def)
  qed
qed

lemma convert_u32_unsupported:
  assumes "u32_endian_value cur endian = None"
  shows "convert_u32str_to_u8str_without_bom (cur # rest) endian acc = (False, acc)"
  using assms by simp

lemma length_pushed_u32: "v < 0x110000 \<Longrightarrow> length (pushed_u32 v) = spec_utf8_length v"
  by (simp add: pushed_u32_def spec_utf8_length_def)

lemma pushed_u32_wellformed: "v < 0x110000 \<Longrightarrow> utf8_sequence_of (pushed_u32 v) v"
  unfolding pushed_u32_def
  using one_byte_sequence[of v] two_byte_sequence[of v] three_byte_sequence[of v] four_byte_sequence[of v] by (simp del: utf8_sequence_of.simps)

lemma convert_u32_all_valid:
  assumes "\<forall>c\<in>set cs. \<exists>v. u32_endian_value c endian = Some v \<and> v < 0x110000"
  shows "convert_u32str_to_u8str_without_bom cs endian acc =
    (True, acc @ concat (map (\<lambda>c. pushed_u32 (the (u32_endian_value c endian))) cs))"
  using assms
proof (induction cs arbitrary: acc)
  case Nil
  then show ?case by simp
next
  case (Cons c cs)
  from Cons.prems obtain v where v: "u32_endian_value c endian = Some v" "v < 0x110000"
    by auto
  from Cons.prems have rest: "\<forall>c\<in>set cs. \<exists>v. u32_endian_value c endian = Some v \<and> v < 0x110000"
    by simp
  show ?case
    using Cons.IH[OF rest, of "acc @ pushed_u32 v"] v
    by (simp only: convert_u32_Cons[OF v(1)] if_True list.map concat.simps option.sel append_assoc)
qed

lemma convert_u32_success_iff:
  "fst (convert_u32str_to_u8str_without_bom cs endian acc) \<longleftrightarrow>
     (\<forall>c\<in>set cs. \<exists>v. u32_endian_value c endian = Some v \<and> v < 0x110000)"
proof (induction cs arbitrary: acc)
  case Nil
  then show ?case by simp
next
  case (Cons c cs)
  show ?case
  proof (cases "u32_endian_value c endian")
    case None
    then show ?thesis by (simp only: convert_u32_unsupported[OF None]) simp
  next
    case (Some v)
    show ?thesis
      using Cons.IH[of "acc @ pushed_u32 v"] Some
      by (simp only: convert_u32_Cons[OF Some]) (auto simp del: convert_u32str_to_u8str_without_bom.simps)
  qed
qed

lemma convert_u32_append:
  assumes "convert_u32str_to_u8str_without_bom pre endian acc = (True, out)"
  shows "convert_u32str_to_u8str_without_bom (pre @ post) endian acc =
         convert_u32str_to_u8str_without_bom post endian out"
  using assms
proof (induction pre arbitrary: acc)
  case Nil
  then show ?case by simp
next
  case (Cons c cs)
  show ?case
  proof (cases "u32_endian_value c endian")
    case None
    with Cons.prems show ?thesis by simp
  next
    case (Some v)
    with Cons.prems have "v < 0x110000"
      by (simp only: convert_u32_Cons[OF Some] split: if_splits) simp
    with Cons.prems Cons.IH[of "acc @ pushed_u32 v"] Some show ?thesis
      by (simp only: append_Cons convert_u32_Cons[OF Some] if_True)
  qed
qed

lemma to_u8string_u32_single:
  assumes "u32_endian_value cur endian = Some v" and "v < 0x110000"
  shows "to_u8string_u32 [cur] endian target = (True, pushed_u32 v)"
  using assms by (simp only: to_u8string_u32_def convert_u32_Cons[OF assms(1)] if_True
      convert_u32str_to_u8str_without_bom.simps(1) append_Nil)

lemma convert_u32_output:
  assumes "convert_u32str_to_u8str_without_bom cs endian acc = (True, out)"
  shows "\<exists>encs. out = acc @ concat encs \<and>
           list_all2 (\<lambda>c enc. \<exists>v. u32_endian_value c endian = Some v \<and>
              length enc = spec_utf8_length v \<and> utf8_sequence_of enc v) cs encs"
proof -
  from assms have "fst (convert_u32str_to_u8str_without_bom cs endian acc)" by simp
  then have ok: "\<forall>c\<in>set cs. \<exists>v. u32_endian_value c endian = Some v \<and> v < 0x110000"
    by (simp only: convert_u32_success_iff)
  let ?encs = "map (\<lambda>c. pushed_u32 (the (u32_endian_value c endian))) cs"
  from convert_u32_all_valid[OF ok, of acc] assms have "out = acc @ concat ?encs" by simp
  moreover have "list_all2 (\<lambda>c enc. \<exists>v. u32_endian_value c endian = Some v \<and>
              length enc = spec_utf8_length v \<and> utf8_sequence_of enc v) cs ?encs"
    unfolding list_all2_map2
  proof (rule list_all2_all_nthI)
    show "length cs = length cs" ..
  next
    fix n assume "n < length cs"
    then have "cs ! n \<in> set cs" by simp
    with ok obtain v where v: "u32_endian_value (cs ! n) endian = Some v" "v < 0x110000" by blast
    then show "\<exists>v. u32_endian_value (cs ! n) endian = Some v \<and>
      length (pushed_u32 (the (u32_endian_value (cs ! n) endian))) = spec_utf8_length v \<and>
      utf8_sequence_of (pushed_u32 (the (u32_endian_value (cs ! n) endian))) v"
      using length_pushed_u32[OF v(2)] pushed_u32_wellformed[OF v(2)] by simp
  qed
  ultimately show ?thesis by blast
qed

text \<open>
  Claim C4. Let \<open>v\<close> be the value of an input character under the declared byte order,
  with \<open>v < 0x110000\<close>. The encoder appends for it a byte sequence \<open>enc\<close> and goes on
  with the rest of the input; \<open>enc\<close> has 1, 2, 3 or 4 bytes according to the range of
  \<open>v\<close> (\<open>spec_utf8_length\<close>), carries the lead and continuation marks of UTF-8 and
  its payload bits are \<open>v\<close> (\<open>utf8_sequence_of\<close>). The output of a successful call is
  the concatenation of such sequences, one for each input character. The boundary values
  0x7F, 0x80, 0x7FF, 0x800, 0xFFFF, 0x10000 and 0x10FFFF give 1, 2, 2, 3, 3, 4 and 4 bytes
  in both byte orders.
\<close>

theorem u32_encoder_emits_minimal_utf8:
  "(u32_endian_value cur endian = Some v \<and> v < 0x110000 \<longrightarrow>
      (\<exists>enc. to_u8string_u32 [cur] endian target = (True, enc) \<and>
             convert_u32str_to_u8str_without_bom (cur # rest) endian acc =
               convert_u32str_to_u8str_without_bom rest endian (acc @ enc) \<and>
             length enc = spec_utf8_length v \<and> utf8_sequence_of enc v)) \<and>
   (to_u8string_u32 cs endian target = (True, out) \<longrightarrow>
      (\<exists>encs. out = concat encs \<and>
         list_all2 (\<lambda>c enc. \<exists>v. u32_endian_value c endian = Some v \<and>
              length enc = spec_utf8_length v \<and> utf8_sequence_of enc v) cs encs)) \<and>
   map (\<lambda>cp. length (snd (to_u8string_u32 [u32_char_of UTF_ENDIAN_BIG_ENDIAN cp]
                               UTF_ENDIAN_BIG_ENDIAN target)))
       [0x7F, 0x80, 0x7FF, 0x800, 0xFFFF, 0x10000, 0x10FFFF] = [1, 2, 2, 3, 3, 4, 4] \<and>
   map (\<lambda>cp. length (snd (to_u8string_u32 [u32_char_of UTF_ENDIAN_LITTLE_ENDIAN cp]
                               UTF_ENDIAN_LITTLE_ENDIAN target)))
       [0x7F, 0x80, 0x7FF, 0x800, 0xFFFF, 0x10000, 0x10FFFF] = [1, 2, 2, 3, 3, 4, 4]"
proof (intro conjI impI)
  assume a: "u32_endian_value cur endian = Some v \<and> v < 0x110000"
  then have v: "u32_endian_value cur endian = Some v" "v < 0x110000" by simp_all
  show "\<exists>enc. to_u8string_u32 [cur] endian target = (True, enc) \<and>
             convert_u32str_to_u8str_without_bom (cur # rest) endian acc =
               convert_u32str_to_u8str_without_bom rest endian (acc @ enc) \<and>
             length enc = spec_utf8_length v \<and> utf8_sequence_of enc v"
  proof (intro exI conjI)
    show "to_u8string_u32 [cur] endian target = (True, pushed_u32 v)"
      using v by (rule to_u8string_u32_single)
    show "convert_u32str_to_u8str_without_bom (cur # rest) endian acc =
               convert_u32str_to_u8str_without_bom rest endian (acc @ pushed_u32 v)"
      using v(2) by (simp only: convert_u32_Cons[OF v(1)] if_True)
    show "length (pushed_u32 v) = spec_utf8_length v" using v(2) by (rule length_pushed_u32)
    show "utf8_sequence_of (pushed_u32 v) v" using v(2) by (rule pushed_u32_wellformed)
  qed
next
  assume "to_u8string_u32 cs endian target = (True, out)"
  then have "convert_u32str_to_u8str_without_bom cs endian [] = (True, out)"
    by (simp only: to_u8string_u32_def)
  from convert_u32_output[OF this]
  show "\<exists>encs. out = concat encs \<and>
         list_all2 (\<lambda>c enc. \<exists>v. u32_endian_value c endian = Some v \<and>
              length enc = spec_utf8_length v \<and> utf8_sequence_of enc v) cs encs"
    by simp
next
  show "map (\<lambda>cp. length (snd (to_u8string_u32 [u32_char_of UTF_ENDIAN_BIG_ENDIAN cp]
                               UTF_ENDIAN_BIG_ENDIAN target)))
       [0x7F, 0x80, 0x7FF, 0x800, 0xFFFF, 0x10000, 0x10FFFF] = [1, 2, 2, 3, 3, 4, 4]"
    by (simp add: to_u8string_u32_single[OF u32_endian_value_char_of] pushed_u32_def)
next
  show "map (\<lambda>cp. length (snd (to_u8string_u32 [u32_char_of UTF_ENDIAN_LITTLE_ENDIAN cp]
                               UTF_ENDIAN_LITTLE_ENDIAN target)))
       [0x7F, 0x80, 0x7FF, 0x800, 0xFFFF, 0x10000, 0x10FFFF] = [1, 2, 2, 3, 3, 4, 4]"
    by (simp add: to_u8string_u32_single[OF u32_endian_value_char_of] pushed_u32_def)
qed

theorem u32_encoder_emits_minimal_utf8_witness:
  "u32_endian_value \<lparr>v32_0 = 0x00, v32_1 = 0x00, v32_2 = 0x20, v32_3 = 0xAC\<rparr>
      UTF_ENDIAN_BIG_ENDIAN = Some 0x20AC \<and> (0x20AC :: uint32_t) < 0x110000 \<and>
   to_u8string_u32 [\<lparr>v32_0 = 0x00, v32_1 = 0x00, v32_2 = 0x20, v32_3 = 0xAC\<rparr>]
      UTF_ENDIAN_BIG_ENDIAN [] = (True, [0xE2, 0x82, 0xAC]) \<and>
   (\<exists>enc. to_u8string_u32 [\<lparr>v32_0 = 0x00, v32_1 = 0x00, v32_2 = 0x20, v32_3 = 0xAC\<rparr>]
      UTF_ENDIAN_BIG_ENDIAN [] = (True, enc) \<and> length enc = spec_utf8_length 0x20AC \<and>
      utf8_sequence_of enc 0x20AC)"
  using u32_encoder_emits_minimal_utf8
    [of "\<lparr>v32_0 = 0x00, v32_1 = 0x00, v32_2 = 0x20, v32_3 = 0xAC\<rparr>" UTF_ENDIAN_BIG_ENDIAN
        "0x20AC" "[]" "[]" "[]" "[\<lparr>v32_0 = 0x00, v32_1 = 0x00, v32_2 = 0x20, v32_3 = 0xAC\<rparr>]"
        "[0xE2, 0x82, 0xAC]"]
  by (simp add: u32_endian_value_def to_u8string_u32_def)

lemma surrogate_band_is_three_byte_range:
  fixes v :: uint32_t
  assumes "0xD800 \<le> v" and "v \<le> 0xDFFF"
  shows "\<not> v < 0x80" and "\<not> v < 0x800" and "v < 0x10000" and "v < 0x110000"
  using assms by (simp_all add: word_less_nat_alt word_le_nat_alt)

text \<open>
  Claim C9. A character whose value under the declared byte order lies in the surrogate
  band \<open>0xD800\<close> to \<open>0xDFFF\<close> is not rejected: the encoder appends a three-byte UTF-8
  sequence for that value and goes on, and a string of that one character succeeds. A
  string that holds a character of value \<open>0x110000\<close> or more is rejected.
\<close>

theorem u32_encoder_passes_surrogates_rejects_above_0x10FFFF:
  "(u32_endian_value cur endian = Some v \<and> 0xD800 \<le> v \<and> v \<le> 0xDFFF \<longrightarrow>
      (\<exists>b0 b1 b2. to_u8string_u32 [cur] endian target = (True, [b0, b1, b2]) \<and>
         utf8_sequence_of [b0, b1, b2] v \<and>
         convert_u32str_to_u8str_without_bom (cur # rest) endian acc =
           convert_u32str_to_u8str_without_bom rest endian (acc @ [b0, b1, b2]))) \<and>
   (c \<in> set cs \<and> u32_endian_value c endian = Some w \<and> 0x110000 \<le> w \<longrightarrow>
      fst (to_u8string_u32 cs endian target) = False)"
proof (intro conjI impI)
  assume "u32_endian_value cur endian = Some v \<and> 0xD800 \<le> v \<and> v \<le> 0xDFFF"
  then have v: "u32_endian_value cur endian = Some v" and band: "0xD800 \<le> v" "v \<le> 0xDFFF"
    by simp_all
  note r = surrogate_band_is_three_byte_range[OF band]
  let ?b0 = "ucast (((drop_bit 12 v) AND 0x0f) OR 0xe0) :: uint8_t"
  let ?b1 = "ucast (((drop_bit 6 v) AND 0x3f) OR 0x80) :: uint8_t"
  let ?b2 = "ucast ((v AND 0x3f) OR 0x80) :: uint8_t"
  have p: "pushed_u32 v = [?b0, ?b1, ?b2]"
    using r by (simp add: pushed_u32_def)
  show "\<exists>b0 b1 b2. to_u8string_u32 [cur] endian target = (True, [b0, b1, b2]) \<and>
         utf8_sequence_of [b0, b1, b2] v \<and>
         convert_u32str_to_u8str_without_bom (cur # rest) endian acc =
           convert_u32str_to_u8str_without_bom rest endian (acc @ [b0, b1, b2])"
  proof (intro exI conjI)
    show "to_u8string_u32 [cur] endian target = (True, [?b0, ?b1, ?b2])"
      using to_u8string_u32_single[OF v r(4)] p by simp
    show "utf8_sequence_of [?b0, ?b1, ?b2] v"
      using pushed_u32_wellformed[OF r(4)] p by simp
    show "convert_u32str_to_u8str_without_bom (cur # rest) endian acc =
           convert_u32str_to_u8str_without_bom rest endian (acc @ [?b0, ?b1, ?b2])"
      using r(4) p by (simp only: convert_u32_Cons[OF v] if_True)
  qed
next
  assume a: "c \<in> set cs \<and> u32_endian_value c endian = Some w \<and> 0x110000 \<le> w"
  have "\<not> (\<forall>c\<in>set cs. \<exists>v. u32_endian_value c endian = Some v \<and> v < 0x110000)"
  proof
    assume "\<forall>c\<in>set cs. \<exists>v. u32_endian_value c endian = Some v \<and> v < 0x110000"
    with a obtain v where "u32_endian_value c endian = Some v" "v < 0x110000" by blast
    with a show False by (auto simp add: word_le_nat_alt word_less_nat_alt)
  qed
  then show "fst (to_u8string_u32 cs endian target) = False"
    by (simp only: to_u8string_u32_def convert_u32_success_iff)
qed

theorem u32_encoder_passes_surrogates_rejects_above_0x10FFFF_witness:
  "u32_endian_value \<lparr>v32_0 = 0x00, v32_1 = 0xD8, v32_2 = 0x00, v32_3 = 0x00\<rparr>
       UTF_ENDIAN_LITTLE_ENDIAN = Some 0xD800 \<and>
   (0xD800 :: uint32_t) \<le> 0xD800 \<and> (0xD800 :: uint32_t) \<le> 0xDFFF \<and>
   to_u8string_u32 [\<lparr>v32_0 = 0x00, v32_1 = 0xD8, v32_2 = 0x00, v32_3 = 0x00\<rparr>]
       UTF_ENDIAN_LITTLE_ENDIAN [] = (True, [0xED, 0xA0, 0x80]) \<and>
   utf8_sequence_of [0xED, 0xA0, 0x80] 0xD800 \<and>
   \<lparr>v32_0 = 0x00, v32_1 = 0x00, v32_2 = 0x11, v32_3 = 0x00\<rparr>
       \<in> set [\<lparr>v32_0 = 0x41, v32_1 = 0x00, v32_2 = 0x00, v32_3 = 0x00\<rparr>,
               \<lparr>v32_0 = 0x00, v32_1 = 0x00, v32_2 = 0x11, v32_3 = 0x00\<rparr>] \<and>
   u32_endian_value \<lparr>v32_0 = 0x00, v32_1 = 0x00, v32_2 = 0x11, v32_3 = 0x00\<rparr>
       UTF_ENDIAN_LITTLE_ENDIAN = Some 0x110000 \<and>
   (0x110000 :: uint32_t) \<le> 0x110000 \<and>
   fst (to_u8string_u32 [\<lparr>v32_0 = 0x41, v32_1 = 0x00, v32_2 = 0x00, v32_3 = 0x00\<rparr>,
                         \<lparr>v32_0 = 0x00, v32_1 = 0x00, v32_2 = 0x11, v32_3 = 0x00\<rparr>]
          UTF_ENDIAN_LITTLE_ENDIAN []) = False"
  using u32_encoder_passes_surrogates_rejects_above_0x10FFFF
    [of "\<lparr>v32_0 = 0x00, v32_1 = 0xD8, v32_2 = 0x00, v32_3 = 0x00\<rparr>" UTF_ENDIAN_LITTLE_ENDIAN
        "0xD800" "[]" "[]" "[]"
        "\<lparr>v32_0 = 0x00, v32_1 = 0x00, v32_2 = 0x11, v32_3 = 0x00\<rparr>"
        "[\<lparr>v32_0 = 0x41, v32_1 = 0x00, v32_2 = 0x00, v32_3 = 0x00\<rparr>,
          \<lparr>v32_0 = 0x00, v32_1 = 0x00, v32_2 = 0x11, v32_3 = 0x00\<rparr>]" "0x110000"]
  by (simp add: u32_endian_value_def to_u8string_u32_def)

text \<open>
  Claim C6. Let the characters before index \<open>k\<close> all have values below \<open>0x110000\<close>
  and let the character at \<open>k\<close> fail, by a value of \<open>0x110000\<close> or more or by a byte
  order that is neither member of the enumeration. Then the call returns \<open>false\<close> and
  \<open>target\<close> holds exactly the UTF-8 bytes of the first \<open>k\<close> characters: the
  concatenation of one byte sequence for each of them, in order, each of the length the
  spec gives the character's value and with the UTF-8 marks and that value as payload.
  These are also the bytes a successful call on the first \<open>k\<close> characters produces.
  \<open>target\<close> holds nothing of its old content, nothing for the failing character and
  nothing for the characters behind it.
\<close>

theorem u32_encoder_fail_fast_keeps_earlier_bytes:
  assumes "k < length u32str"
    and "\<forall>c\<in>set (take k u32str). \<exists>v. u32_endian_value c endian = Some v \<and> v < 0x110000"
    and "(endian \<noteq> UTF_ENDIAN_BIG_ENDIAN \<and> endian \<noteq> UTF_ENDIAN_LITTLE_ENDIAN) \<or>
         (\<exists>v. u32_endian_value (u32str ! k) endian = Some v \<and> 0x110000 \<le> v)"
  shows "\<exists>encs.
           list_all2 (\<lambda>c enc. \<exists>v. u32_endian_value c endian = Some v \<and>
              length enc = spec_utf8_length v \<and> utf8_sequence_of enc v) (take k u32str) encs \<and>
           to_u8string_u32 u32str endian target = (False, concat encs) \<and>
           to_u8string_u32 (take k u32str) endian target' = (True, concat encs)"
proof -
  let ?out = "concat (map (\<lambda>c. pushed_u32 (the (u32_endian_value c endian))) (take k u32str))"
  have pre: "convert_u32str_to_u8str_without_bom (take k u32str) endian [] = (True, ?out)"
    using convert_u32_all_valid[OF assms(2), of "[]"] by simp
  have split: "u32str = take k u32str @ (u32str ! k) # drop (Suc k) u32str"
    using assms(1) by (simp add: id_take_nth_drop)
  have "convert_u32str_to_u8str_without_bom ((u32str ! k) # drop (Suc k) u32str) endian ?out
          = (False, ?out)"
  proof (cases "u32_endian_value (u32str ! k) endian")
    case None
    then show ?thesis by (rule convert_u32_unsupported)
  next
    case (Some v)
    with assms(3) have "\<not> v < 0x110000"
      by (auto simp add: u32_endian_value_def not_less split: if_splits)
    then show ?thesis by (simp only: convert_u32_Cons[OF Some] if_False)
  qed
  with convert_u32_append[OF pre, of "(u32str ! k) # drop (Suc k) u32str"] split
  have whole: "convert_u32str_to_u8str_without_bom u32str endian [] = (False, ?out)"
    by simp
  from convert_u32_output[OF pre] obtain encs where
    out: "?out = concat encs" and
    seqs: "list_all2 (\<lambda>c enc. \<exists>v. u32_endian_value c endian = Some v \<and>
              length enc = spec_utf8_length v \<and> utf8_sequence_of enc v) (take k u32str) encs"
    by auto
  from whole out have "to_u8string_u32 u32str endian target = (False, concat encs)"
    by (simp only: to_u8string_u32_def)
  moreover from pre out
  have "to_u8string_u32 (take k u32str) endian target' = (True, concat encs)"
    by (simp only: to_u8string_u32_def)
  ultimately show ?thesis using seqs by blast
qed

theorem u32_encoder_fail_fast_keeps_earlier_bytes_witness:
  "(1::nat) < length [\<lparr>v32_0 = 0x00, v32_1 = 0x00, v32_2 = 0x00, v32_3 = 0xE9\<rparr>,
                      \<lparr>v32_0 = 0x00, v32_1 = 0x11, v32_2 = 0x00, v32_3 = 0x00\<rparr>,
                      \<lparr>v32_0 = 0x00, v32_1 = 0x00, v32_2 = 0x00, v32_3 = 0x41\<rparr>] \<and>
   u32_endian_value \<lparr>v32_0 = 0x00, v32_1 = 0x00, v32_2 = 0x00, v32_3 = 0xE9\<rparr>
       UTF_ENDIAN_BIG_ENDIAN = Some 0xE9 \<and> (0xE9 :: uint32_t) < 0x110000 \<and>
   u32_endian_value \<lparr>v32_0 = 0x00, v32_1 = 0x11, v32_2 = 0x00, v32_3 = 0x00\<rparr>
       UTF_ENDIAN_BIG_ENDIAN = Some 0x110000 \<and> (0x110000 :: uint32_t) \<le> 0x110000 \<and>
   to_u8string_u32 [\<lparr>v32_0 = 0x00, v32_1 = 0x00, v32_2 = 0x00, v32_3 = 0xE9\<rparr>]
       UTF_ENDIAN_BIG_ENDIAN [] = (True, [0xC3, 0xA9]) \<and>
   to_u8string_u32 [\<lparr>v32_0 = 0x00, v32_1 = 0x00, v32_2 = 0x00, v32_3 = 0xE9\<rparr>,
                    \<lparr>v32_0 = 0x00, v32_1 = 0x11, v32_2 = 0x00, v32_3 = 0x00\<rparr>,
                    \<lparr>v32_0 = 0x00, v32_1 = 0x00, v32_2 = 0x00, v32_3 = 0x41\<rparr>]
       UTF_ENDIAN_BIG_ENDIAN [0x58, 0x59] = (False, [0xC3, 0xA9]) \<and>
   length [0xC3 :: uint8_t, 0xA9] = spec_utf8_length 0xE9 \<and>
   utf8_sequence_of [0xC3, 0xA9] 0xE9"
  using u32_encoder_fail_fast_keeps_earlier_bytes
    [of 1 "[\<lparr>v32_0 = 0x00, v32_1 = 0x00, v32_2 = 0x00, v32_3 = 0xE9\<rparr>,
            \<lparr>v32_0 = 0x00, v32_1 = 0x11, v32_2 = 0x00, v32_3 = 0x00\<rparr>,
            \<lparr>v32_0 = 0x00, v32_1 = 0x00, v32_2 = 0x00, v32_3 = 0x41\<rparr>]"
        UTF_ENDIAN_BIG_ENDIAN "[0x58, 0x59]" "[]"]
  by (simp add: u32_endian_value_def to_u8string_u32_def spec_utf8_length_def)

section \<open>The UTF-16 encoder\<close>

text \<open>
  The steps of the loop at a unit of the trail band and at a lead unit, and the run on a
  prefix that converts on its own: the loop then stands behind the prefix with the output
  of the prefix in \<open>target\<close>.
\<close>

lemma u16_trail_band:
  fixes val :: uint16_t
  assumes "0xDC00 \<le> val"
  shows "\<not> val < 0x80" and "\<not> val < 0x800" and "\<not> val < 0xdc00"
  using assms by (simp_all add: word_less_nat_alt word_le_nat_alt)

lemma u16_lead_band:
  fixes val :: uint16_t
  assumes "0xD800 \<le> val" "val < 0xDC00"
  shows "\<not> val < 0x80" and "\<not> val < 0x800"
  using assms by (simp_all add: word_less_nat_alt word_le_nat_alt)

lemma convert_u16_trail_step:
  assumes "get_u16_endian_value cur endian = Some val" and "0xDC00 \<le> val"
  shows "convert_u16str_to_u8str_without_bom (cur # rest) endian acc =
         convert_u16str_to_u8str_without_bom rest endian (acc @ pushed_u16_three val)"
  using assms(1) u16_trail_band[OF assms(2)] by (simp add: pushed_u16_three_def)

lemma ucast_u16_less_iff:
  fixes w :: uint16_t
  shows "(ucast w :: uint32_t) < 0xdc00 \<longleftrightarrow> w < 0xdc00"
  by (simp add: word_less_nat_alt unsigned_ucast_eq take_bit_nat_eq_self
        order.strict_trans[OF unsigned_less])

lemma convert_u16_pair_step:
  assumes "get_u16_endian_value cur endian = Some val" and "0xD800 \<le> val" and "val < 0xDC00"
    and "get_u16_endian_value nxt endian = Some low16" and "0xDC00 \<le> low16"
  shows "convert_u16str_to_u8str_without_bom (cur # nxt # rest) endian acc =
         convert_u16str_to_u8str_without_bom rest endian (acc @ pushed_u16_pair val low16)"
proof -
  have "\<not> (ucast low16 :: uint32_t) < 0xdc00"
    using assms(5) by (simp add: ucast_u16_less_iff not_less)
  then show ?thesis
    using assms(1,2,3,4) u16_lead_band[OF assms(2,3)]
    by (simp add: pushed_u16_pair_def Let_def)
qed

lemma convert_u16_lone_lead:
  assumes "get_u16_endian_value cur endian = Some val" and "0xD800 \<le> val" and "val < 0xDC00"
  shows "convert_u16str_to_u8str_without_bom [cur] endian acc = Some (False, acc)"
  using assms u16_lead_band[OF assms(2,3)] by simp

lemma convert_u16_append:
  assumes "convert_u16str_to_u8str_without_bom pre endian acc = Some (True, out)"
  shows "convert_u16str_to_u8str_without_bom (pre @ post) endian acc =
         convert_u16str_to_u8str_without_bom post endian out"
  using assms
proof (induction pre endian acc rule: convert_u16str_to_u8str_without_bom.induct)
  case (1 endian target)
  then show ?case by simp
next
  case (2 cur rest endian target)
  show ?case
  proof (cases "get_u16_endian_value cur endian")
    case None
    with "2.prems" show ?thesis by simp
  next
    case (Some val)
    show ?thesis
    proof (cases "val < 0x80")
      case True
      with "2.prems" "2.IH"(1)[OF Some True] Some show ?thesis by simp
    next
      case f1: False
      show ?thesis
      proof (cases "val < 0x800")
        case True
        with "2.prems" "2.IH"(2)[OF Some f1 True] Some f1 show ?thesis by simp
      next
        case f2: False
        show ?thesis
        proof (cases "0xd800 \<le> val \<and> val < 0xdc00")
          case f3: False
          with "2.prems" "2.IH"(4)[OF Some f1 f2 f3] Some f1 f2 show ?thesis by (simp add: f3)
        next
          case t3: True
          show ?thesis
          proof (cases rest)
            case Nil
            with "2.prems" Some f1 f2 t3 show ?thesis by simp
          next
            case (Cons nxt rest')
            show ?thesis
            proof (cases "get_u16_endian_value nxt endian")
              case None
              with "2.prems" Some f1 f2 t3 Cons show ?thesis by simp
            next
              case low: (Some low16)
              show ?thesis
              proof (cases "(ucast low16 :: uint32_t) < 0xdc00")
                case True
                with "2.prems" Some f1 f2 t3 Cons low show ?thesis by (simp add: Let_def)
              next
                case False
                with "2.prems" "2.IH"(3)[OF Some f1 f2 t3 Cons low refl refl False refl]
                  Some f1 f2 t3 Cons low show ?thesis by (simp add: Let_def)
              qed
            qed
          qed
        qed
      qed
    qed
  qed
qed

lemma u16_no_high_bits: "16 \<le> n \<Longrightarrow> \<not> bit (w :: uint16_t) n"
  by (auto dest: bit_imp_le_length)

lemma pushed_u16_three_wellformed: "utf8_sequence_of (pushed_u16_three val) (ucast val)"
  unfolding pushed_u16_three_def
  apply simp
  apply (intro conjI)
   apply (rule byte_eqI; simp add: bit_simps)
   apply (rule byte_eqI; simp add: bit_simps)
   apply (rule byte_eqI; simp add: bit_simps)
   apply (rule word32_eq_bytesI; rule byte_eqI; simp add: bit_simps u16_no_high_bits)
  done

lemma unat_push_bit_10:
  fixes h :: uint32_t
  assumes "unat h < 1024"
  shows "unat (push_bit 10 h) = unat h * 1024"
  using assms by (simp add: push_bit_eq_mult unat_word_ariths)

lemma four_byte_sequence_unmasked_lead: "(v::32 word) < 0x110000 \<Longrightarrow>
  utf8_sequence_of [ucast ((drop_bit 18 v) OR 0xf0),
                         ucast (((drop_bit 12 v) AND 0x3f) OR 0x80),
                         ucast (((drop_bit 6 v) AND 0x3f) OR 0x80),
                         ucast ((v AND 0x3f) OR 0x80)] v"
  apply simp
  apply (intro conjI)
   apply (rule byte_eqI; simp add: bit_simps below_0x110000)
   apply (rule byte_eqI; simp add: bit_simps below_0x110000)
   apply (rule byte_eqI; simp add: bit_simps below_0x110000)
   apply (rule byte_eqI; simp add: bit_simps below_0x110000)
   apply (rule word32_eq_bytesI; rule byte_eqI; simp add: bit_simps below_0x110000)
  done

lemma unat_ucast_u16: "unat (ucast (w :: uint16_t) :: uint32_t) = unat w"
  by (simp add: unsigned_ucast_eq take_bit_nat_eq_self order.strict_trans[OF unsigned_less])

lemma unat_add_no_wrap:
  fixes a b :: uint32_t
  assumes "unat a + unat b < 2 ^ 32"
  shows "unat (a + b) = unat a + unat b"
  using assms by (simp add: unat_word_ariths)

lemma surrogate_pair_code_point:
  fixes val low16 :: uint16_t
  assumes "0xD800 \<le> val" "val < 0xDC00" "0xDC00 \<le> low16" "low16 < 0xE000"
  defines "code_point \<equiv> (push_bit 10 ((ucast val :: uint32_t) - 0xd800) OR ((ucast low16 :: uint32_t) - 0xdc00)) + 0x10000"
  shows "unat code_point = 0x10000 + (unat val - 0xD800) * 1024 + (unat low16 - 0xDC00)"
    and "code_point < 0x110000"
proof -
  define h where "h = (ucast val :: uint32_t) - 0xd800"
  define l where "l = (ucast low16 :: uint32_t) - 0xdc00"
  define c :: uint32_t where "c = 0x10000"
  have hv: "unat h = unat val - 0xD800"
    unfolding h_def using assms(1) by (simp add: unat_sub word_le_nat_alt unat_ucast_u16)
  have lv: "unat l = unat low16 - 0xDC00"
    unfolding l_def using assms(3) by (simp add: unat_sub word_le_nat_alt unat_ucast_u16)
  have hb: "unat h < 1024" using hv assms(1,2) by (simp add: word_less_nat_alt word_le_nat_alt)
  have lb: "unat l < 1024" using lv assms(3,4) by (simp add: word_less_nat_alt word_le_nat_alt)
  have l10: "l < 2 ^ 10" using lb by (simp add: word_less_nat_alt)
  have disj: "push_bit 10 h AND l = 0"
    by (rule bit_word_eqI) (auto simp add: bit_simps dest: hi_bits_zero[OF l10])
  have or_add: "push_bit 10 h OR l = push_bit 10 h + l"
    using disj by (simp add: disjunctive_add_eq_or)
  have ph: "unat (push_bit 10 h) = unat h * 1024"
    using hb by (rule unat_push_bit_10)
  have sum: "unat (push_bit 10 h + l) = unat h * 1024 + unat l"
    using hb lb ph unat_add_no_wrap[of "push_bit 10 h" l] by simp
  have cv: "unat c = 0x10000" by (simp add: c_def)
  have "unat ((push_bit 10 h + l) + c) = unat (push_bit 10 h + l) + unat c"
    using sum hb lb cv by (intro unat_add_no_wrap) simp
  with sum cv have cp': "unat ((push_bit 10 h + l) + c) = unat h * 1024 + unat l + 0x10000"
    by simp
  have cp_eq: "code_point = (push_bit 10 h + l) + c"
    unfolding code_point_def h_def l_def c_def or_add[unfolded h_def l_def] ..
  from cp' have cp: "unat code_point = unat h * 1024 + unat l + 0x10000"
    unfolding cp_eq .
  then show "unat code_point = 0x10000 + (unat val - 0xD800) * 1024 + (unat low16 - 0xDC00)"
    using hv lv by simp
  show "code_point < 0x110000"
    using cp hb lb by (simp add: word_less_nat_alt)
qed

lemma pushed_u16_pair_wellformed:
  fixes val low16 :: uint16_t
  assumes "0xD800 \<le> val" "val < 0xDC00" "0xDC00 \<le> low16" "low16 < 0xE000"
  shows "utf8_sequence_of (pushed_u16_pair val low16)
           (of_nat (0x10000 + (unat val - 0xD800) * 1024 + (unat low16 - 0xDC00)))"
    and "length (pushed_u16_pair val low16) = 4"
proof -
  define code_point :: uint32_t where
    "code_point = (push_bit 10 (ucast val - 0xd800) OR (ucast low16 - 0xdc00)) + 0x10000"
  note cp = surrogate_pair_code_point[OF assms, folded code_point_def]
  have "of_nat (unat code_point) = code_point" by simp
  then have eq: "of_nat (0x10000 + (unat val - 0xD800) * 1024 + (unat low16 - 0xDC00)) = code_point"
    by (simp only: cp(1))
  have "utf8_sequence_of (pushed_u16_pair val low16) code_point"
    unfolding pushed_u16_pair_def Let_def code_point_def[symmetric]
    using cp(2) by (rule four_byte_sequence_unmasked_lead)
  then show "utf8_sequence_of (pushed_u16_pair val low16)
           (of_nat (0x10000 + (unat val - 0xD800) * 1024 + (unat low16 - 0xDC00)))"
    by (simp only: eq)
  show "length (pushed_u16_pair val low16) = 4"
    by (simp add: pushed_u16_pair_def Let_def)
qed

text \<open>
  Claim C7. Let the loop stand at a unit \<open>cur\<close> (the units \<open>pre\<close> before it convert on
  their own, leaving \<open>acc\<close> in \<open>target\<close>) whose value \<open>lead\<close> lies in
  \<open>[0xD800, 0xDC00)\<close>. If the following unit has a value \<open>trail\<close> in
  \<open>[0xDC00, 0xE000)\<close>, the encoder appends a four-byte UTF-8 sequence for the number
  \<open>0x10000 + (lead - 0xD800) * 2^10 + (trail - 0xDC00)\<close> and goes on behind the second
  unit. The units \<open>0xD83D, 0xDE00\<close> give \<open>F0 9F 98 80\<close>, the sequence for U+1F600, in
  both byte orders. If no unit follows \<open>cur\<close>, the call returns \<open>false\<close>.
\<close>

theorem u16_encoder_combines_surrogate_pair:
  "(get_u16_endian_value cur endian = Some lead \<and> get_u16_endian_value nxt endian = Some trail \<and>
    0xD800 \<le> lead \<and> lead < 0xDC00 \<and> 0xDC00 \<le> trail \<and> trail < 0xE000 \<and>
    to_u8string_u16 pre endian target' = Some (True, acc) \<longrightarrow>
      (\<exists>enc. length enc = 4 \<and>
         utf8_sequence_of enc
           (of_nat (0x10000 + (unat lead - 0xD800) * 1024 + (unat trail - 0xDC00))) \<and>
         to_u8string_u16 (pre @ cur # nxt # rest) endian target =
           convert_u16str_to_u8str_without_bom rest endian (acc @ enc))) \<and>
   to_u8string_u16 [\<lparr>v16_0 = 0xD8, v16_1 = 0x3D\<rparr>, \<lparr>v16_0 = 0xDE, v16_1 = 0x00\<rparr>]
      UTF_ENDIAN_BIG_ENDIAN target = Some (True, [0xF0, 0x9F, 0x98, 0x80]) \<and>
   to_u8string_u16 [\<lparr>v16_0 = 0x3D, v16_1 = 0xD8\<rparr>, \<lparr>v16_0 = 0x00, v16_1 = 0xDE\<rparr>]
      UTF_ENDIAN_LITTLE_ENDIAN target = Some (True, [0xF0, 0x9F, 0x98, 0x80]) \<and>
   utf8_sequence_of [0xF0, 0x9F, 0x98, 0x80] 0x1F600 \<and>
   (get_u16_endian_value cur endian = Some lead \<and> 0xD800 \<le> lead \<and> lead < 0xDC00 \<and>
    to_u8string_u16 pre endian target' = Some (True, acc) \<longrightarrow>
      to_u8string_u16 (pre @ [cur]) endian target = Some (False, acc))"
proof (intro conjI impI)
  assume a: "get_u16_endian_value cur endian = Some lead \<and>
    get_u16_endian_value nxt endian = Some trail \<and>
    0xD800 \<le> lead \<and> lead < 0xDC00 \<and> 0xDC00 \<le> trail \<and> trail < 0xE000 \<and>
    to_u8string_u16 pre endian target' = Some (True, acc)"
  then have cur: "get_u16_endian_value cur endian = Some lead"
    and nxt: "get_u16_endian_value nxt endian = Some trail"
    and band: "0xD800 \<le> lead" "lead < 0xDC00" "0xDC00 \<le> trail" "trail < 0xE000"
    and pre: "convert_u16str_to_u8str_without_bom pre endian [] = Some (True, acc)"
    by (simp_all only: to_u8string_u16_def)
  show "\<exists>enc. length enc = 4 \<and>
         utf8_sequence_of enc
           (of_nat (0x10000 + (unat lead - 0xD800) * 1024 + (unat trail - 0xDC00))) \<and>
         to_u8string_u16 (pre @ cur # nxt # rest) endian target =
           convert_u16str_to_u8str_without_bom rest endian (acc @ enc)"
  proof (intro exI conjI)
    show "length (pushed_u16_pair lead trail) = 4"
      using band by (rule pushed_u16_pair_wellformed(2))
    show "utf8_sequence_of (pushed_u16_pair lead trail)
           (of_nat (0x10000 + (unat lead - 0xD800) * 1024 + (unat trail - 0xDC00)))"
      using band by (rule pushed_u16_pair_wellformed(1))
    show "to_u8string_u16 (pre @ cur # nxt # rest) endian target =
           convert_u16str_to_u8str_without_bom rest endian (acc @ pushed_u16_pair lead trail)"
      by (simp only: to_u8string_u16_def convert_u16_append[OF pre]
          convert_u16_pair_step[OF cur band(1,2) nxt band(3)])
  qed
next
  show "to_u8string_u16 [\<lparr>v16_0 = 0xD8, v16_1 = 0x3D\<rparr>, \<lparr>v16_0 = 0xDE, v16_1 = 0x00\<rparr>]
      UTF_ENDIAN_BIG_ENDIAN target = Some (True, [0xF0, 0x9F, 0x98, 0x80])"
    by (simp add: to_u8string_u16_def get_u16_endian_value_def)
next
  show "to_u8string_u16 [\<lparr>v16_0 = 0x3D, v16_1 = 0xD8\<rparr>, \<lparr>v16_0 = 0x00, v16_1 = 0xDE\<rparr>]
      UTF_ENDIAN_LITTLE_ENDIAN target = Some (True, [0xF0, 0x9F, 0x98, 0x80])"
    by (simp add: to_u8string_u16_def get_u16_endian_value_def)
next
  show "utf8_sequence_of [0xF0, 0x9F, 0x98, 0x80] 0x1F600" by simp
next
  assume a: "get_u16_endian_value cur endian = Some lead \<and> 0xD800 \<le> lead \<and> lead < 0xDC00 \<and>
    to_u8string_u16 pre endian target' = Some (True, acc)"
  then have cur: "get_u16_endian_value cur endian = Some lead"
    and band: "0xD800 \<le> lead" "lead < 0xDC00"
    and pre: "convert_u16str_to_u8str_without_bom pre endian [] = Some (True, acc)"
    by (simp_all only: to_u8string_u16_def)
  show "to_u8string_u16 (pre @ [cur]) endian target = Some (False, acc)"
    by (simp only: to_u8string_u16_def convert_u16_append[OF pre]
        convert_u16_lone_lead[OF cur band])
qed

theorem u16_encoder_combines_surrogate_pair_witness:
  "get_u16_endian_value \<lparr>v16_0 = 0xDB, v16_1 = 0xFF\<rparr> UTF_ENDIAN_BIG_ENDIAN = Some 0xDBFF \<and>
   get_u16_endian_value \<lparr>v16_0 = 0xDF, v16_1 = 0xFF\<rparr> UTF_ENDIAN_BIG_ENDIAN = Some 0xDFFF \<and>
   (0xD800 :: uint16_t) \<le> 0xDBFF \<and> (0xDBFF :: uint16_t) < 0xDC00 \<and>
   (0xDC00 :: uint16_t) \<le> 0xDFFF \<and> (0xDFFF :: uint16_t) < 0xE000 \<and>
   to_u8string_u16 [\<lparr>v16_0 = 0x00, v16_1 = 0x41\<rparr>] UTF_ENDIAN_BIG_ENDIAN [] = Some (True, [0x41]) \<and>
   to_u8string_u16 ([\<lparr>v16_0 = 0x00, v16_1 = 0x41\<rparr>] @
       \<lparr>v16_0 = 0xDB, v16_1 = 0xFF\<rparr> # \<lparr>v16_0 = 0xDF, v16_1 = 0xFF\<rparr> # [\<lparr>v16_0 = 0x00, v16_1 = 0x42\<rparr>])
     UTF_ENDIAN_BIG_ENDIAN [] = Some (True, [0x41, 0xF4, 0x8F, 0xBF, 0xBF, 0x42]) \<and>
   to_u8string_u16 ([\<lparr>v16_0 = 0x00, v16_1 = 0x41\<rparr>] @ [\<lparr>v16_0 = 0xDB, v16_1 = 0xFF\<rparr>])
     UTF_ENDIAN_BIG_ENDIAN [] = Some (False, [0x41])"
  using u16_encoder_combines_surrogate_pair
    [of "\<lparr>v16_0 = 0xDB, v16_1 = 0xFF\<rparr>" UTF_ENDIAN_BIG_ENDIAN "0xDBFF"
        "\<lparr>v16_0 = 0xDF, v16_1 = 0xFF\<rparr>" "0xDFFF"
        "[\<lparr>v16_0 = 0x00, v16_1 = 0x41\<rparr>]" "[]" "[0x41]" "[\<lparr>v16_0 = 0x00, v16_1 = 0x42\<rparr>]" "[]"]
  by (simp add: to_u8string_u16_def get_u16_endian_value_def)

text \<open>
  Claim C8. Let the loop stand at a unit \<open>cur\<close> (the units \<open>pre\<close> before it convert on
  their own, so \<open>cur\<close> is not the second half of a pair) whose value lies in
  \<open>[0xDC00, 0xE000)\<close>. The encoder does not fail there: it appends a three-byte UTF-8
  sequence for the value and goes on with the next unit.
\<close>

theorem u16_encoder_passes_lone_trail_surrogate:
  assumes "get_u16_endian_value cur endian = Some val"
    and "0xDC00 \<le> val" and "val < 0xE000"
    and "to_u8string_u16 pre endian target' = Some (True, acc)"
  shows "\<exists>b0 b1 b2. utf8_sequence_of [b0, b1, b2] (ucast val) \<and>
           to_u8string_u16 (pre @ cur # rest) endian target =
             convert_u16str_to_u8str_without_bom rest endian (acc @ [b0, b1, b2]) \<and>
           to_u8string_u16 (pre @ [cur]) endian target = Some (True, acc @ [b0, b1, b2])"
proof -
  from assms(4) have pre: "convert_u16str_to_u8str_without_bom pre endian [] = Some (True, acc)"
    by (simp only: to_u8string_u16_def)
  let ?b0 = "ucast (((drop_bit 12 val) AND 0x0f) OR 0xe0) :: uint8_t"
  let ?b1 = "ucast (((drop_bit 6 val) AND 0x3f) OR 0x80) :: uint8_t"
  let ?b2 = "ucast ((val AND 0x3f) OR 0x80) :: uint8_t"
  have p: "pushed_u16_three val = [?b0, ?b1, ?b2]" by (simp add: pushed_u16_three_def)
  have step: "\<And>rest. to_u8string_u16 (pre @ cur # rest) endian target =
             convert_u16str_to_u8str_without_bom rest endian (acc @ [?b0, ?b1, ?b2])"
    by (simp only: to_u8string_u16_def convert_u16_append[OF pre]
        convert_u16_trail_step[OF assms(1,2)] p)
  show ?thesis
  proof (intro exI conjI)
    show "utf8_sequence_of [?b0, ?b1, ?b2] (ucast val)"
      using pushed_u16_three_wellformed[of val] by (simp only: p)
    show "to_u8string_u16 (pre @ cur # rest) endian target =
             convert_u16str_to_u8str_without_bom rest endian (acc @ [?b0, ?b1, ?b2])"
      by (rule step)
    show "to_u8string_u16 (pre @ [cur]) endian target = Some (True, acc @ [?b0, ?b1, ?b2])"
      by (simp only: step convert_u16str_to_u8str_without_bom.simps(1))
  qed
qed

theorem u16_encoder_passes_lone_trail_surrogate_witness:
  "get_u16_endian_value \<lparr>v16_0 = 0x00, v16_1 = 0xDC\<rparr> UTF_ENDIAN_LITTLE_ENDIAN = Some 0xDC00 \<and>
   (0xDC00 :: uint16_t) \<le> 0xDC00 \<and> (0xDC00 :: uint16_t) < 0xE000 \<and>
   to_u8string_u16 [\<lparr>v16_0 = 0x41, v16_1 = 0x00\<rparr>] UTF_ENDIAN_LITTLE_ENDIAN [] = Some (True, [0x41]) \<and>
   utf8_sequence_of [0xED, 0xB0, 0x80] 0xDC00 \<and>
   to_u8string_u16 ([\<lparr>v16_0 = 0x41, v16_1 = 0x00\<rparr>] @ [\<lparr>v16_0 = 0x00, v16_1 = 0xDC\<rparr>])
     UTF_ENDIAN_LITTLE_ENDIAN [] = Some (True, [0x41, 0xED, 0xB0, 0x80])"
  using u16_encoder_passes_lone_trail_surrogate
    [of "\<lparr>v16_0 = 0x00, v16_1 = 0xDC\<rparr>" UTF_ENDIAN_LITTLE_ENDIAN "0xDC00"
        "[\<lparr>v16_0 = 0x41, v16_1 = 0x00\<rparr>]" "[]" "[0x41]" "[]" "[]"]
  by (simp add: to_u8string_u16_def get_u16_endian_value_def)

text \<open>
  Claim C3 says that a unit in \<open>[0xD800, 0xDC00)\<close> followed by a unit outside
  \<open>[0xDC00, 0xE000)\<close> makes the call fail. The test at line 119 is \<open>low < 0xdc00\<close>
  only: a following unit of \<open>0xE000\<close> or more is combined. Evaluated here: the units
  \<open>0xD800, 0xE000\<close> give \<open>true\<close> and \<open>F0 90 90 80\<close> in both byte orders; the units
  \<open>0xDBFF, 0xFFFF\<close> give \<open>true\<close> and \<open>F4 8F BF BF\<close>; the units \<open>0xD800, 0x0041\<close>
  give \<open>false\<close>.
\<close>

theorem u16_encoder_accepts_low_half_above_trail_band:
  "to_u8string_u16 [\<lparr>v16_0 = 0xD8, v16_1 = 0x00\<rparr>, \<lparr>v16_0 = 0xE0, v16_1 = 0x00\<rparr>]
      UTF_ENDIAN_BIG_ENDIAN [] = Some (True, [0xF0, 0x90, 0x90, 0x80]) \<and>
   to_u8string_u16 [\<lparr>v16_0 = 0x00, v16_1 = 0xD8\<rparr>, \<lparr>v16_0 = 0x00, v16_1 = 0xE0\<rparr>]
      UTF_ENDIAN_LITTLE_ENDIAN [] = Some (True, [0xF0, 0x90, 0x90, 0x80]) \<and>
   to_u8string_u16 [\<lparr>v16_0 = 0xDB, v16_1 = 0xFF\<rparr>, \<lparr>v16_0 = 0xFF, v16_1 = 0xFF\<rparr>]
      UTF_ENDIAN_BIG_ENDIAN [] = Some (True, [0xF4, 0x8F, 0xBF, 0xBF]) \<and>
   to_u8string_u16 [\<lparr>v16_0 = 0xD8, v16_1 = 0x00\<rparr>, \<lparr>v16_0 = 0x00, v16_1 = 0x41\<rparr>]
      UTF_ENDIAN_BIG_ENDIAN [] = Some (False, [])"
  by (simp add: to_u8string_u16_def get_u16_endian_value_def)

text \<open>
  Claim C2 says that the entry point for UTF-16 with a byte order mark matches the first
  unit against the two marks. The call at lines 422 and 428 passes \<open>u16str_with_bom[1]\<close>.
  Evaluated here: a big-endian mark followed by \<open>0x0041\<close>, a little-endian mark followed
  by \<open>0x0041\<close> and the mark alone all give \<open>false\<close>; the units \<open>0x0041, 0xFEFF, 0x0042\<close>
  give \<open>true\<close> and the bytes \<open>EF BB BF 42\<close>; the entry point for UTF-32 gives \<open>true\<close>
  and \<open>41\<close> for the mark followed by \<open>0x00000041\<close>.
\<close>

theorem u16_bom_entry_matches_second_unit:
  "to_u8string_u16_bom [\<lparr>v16_0 = 0xFE, v16_1 = 0xFF\<rparr>, \<lparr>v16_0 = 0x00, v16_1 = 0x41\<rparr>] []
      = Some (False, []) \<and>
   to_u8string_u16_bom [\<lparr>v16_0 = 0xFF, v16_1 = 0xFE\<rparr>, \<lparr>v16_0 = 0x41, v16_1 = 0x00\<rparr>] []
      = Some (False, []) \<and>
   to_u8string_u16_bom [\<lparr>v16_0 = 0xFE, v16_1 = 0xFF\<rparr>] [] = Some (False, []) \<and>
   to_u8string_u16_bom [\<lparr>v16_0 = 0x00, v16_1 = 0x41\<rparr>, \<lparr>v16_0 = 0xFE, v16_1 = 0xFF\<rparr>,
                        \<lparr>v16_0 = 0x00, v16_1 = 0x42\<rparr>] []
      = Some (True, [0xEF, 0xBB, 0xBF, 0x42]) \<and>
   to_u8string_u32_bom [\<lparr>v32_0 = 0x00, v32_1 = 0x00, v32_2 = 0xFE, v32_3 = 0xFF\<rparr>,
                        \<lparr>v32_0 = 0x00, v32_1 = 0x00, v32_2 = 0x00, v32_3 = 0x41\<rparr>] []
      = (True, [0x41])"
  by (simp add: to_u8string_u16_bom_def to_u8string_u32_bom_def u16string_at_def
      match_u16_bom_def match_u32_bom_def get_u16_endian_value_def u32_endian_value_def)

section \<open>The UTF-8 decoder\<close>

text \<open>
  The recursive equations of both decoders are unfolded by hand, one pass at a time.
\<close>

declare convert_u8str_to_u32str_little_endian_from.simps [simp del]
declare convert_u8str_to_u32str_big_endian_from.simps [simp del]

lemma mask_f0_iff: "(b :: uint8_t) AND 0xf0 = 0xf0 \<longleftrightarrow> bit b 7 \<and> bit b 6 \<and> bit b 5 \<and> bit b 4"
proof
  assume e: "b AND 0xf0 = 0xf0"
  have "bit (b AND 0xf0) 7 = bit b 7" "bit (b AND 0xf0) 6 = bit b 6"
    "bit (b AND 0xf0) 5 = bit b 5" "bit (b AND 0xf0) 4 = bit b 4"
    by (simp_all add: bit_simps)
  then show "bit b 7 \<and> bit b 6 \<and> bit b 5 \<and> bit b 4" unfolding e by simp
next
  assume "bit b 7 \<and> bit b 6 \<and> bit b 5 \<and> bit b 4"
  then show "b AND 0xf0 = 0xf0" by (intro byte_eqI) (simp_all add: bit_simps)
qed

lemma mask_e0_iff: "(b :: uint8_t) AND 0xe0 = 0xe0 \<longleftrightarrow> bit b 7 \<and> bit b 6 \<and> bit b 5"
proof
  assume e: "b AND 0xe0 = 0xe0"
  have "bit (b AND 0xe0) 7 = bit b 7" "bit (b AND 0xe0) 6 = bit b 6"
    "bit (b AND 0xe0) 5 = bit b 5"
    by (simp_all add: bit_simps)
  then show "bit b 7 \<and> bit b 6 \<and> bit b 5" unfolding e by simp
next
  assume "bit b 7 \<and> bit b 6 \<and> bit b 5"
  then show "b AND 0xe0 = 0xe0" by (intro byte_eqI) (simp_all add: bit_simps)
qed

lemma mask_c0_iff: "(b :: uint8_t) AND 0xc0 = 0xc0 \<longleftrightarrow> bit b 7 \<and> bit b 6"
proof
  assume e: "b AND 0xc0 = 0xc0"
  have "bit (b AND 0xc0) 7 = bit b 7" "bit (b AND 0xc0) 6 = bit b 6"
    by (simp_all add: bit_simps)
  then show "bit b 7 \<and> bit b 6" unfolding e by simp
next
  assume "bit b 7 \<and> bit b 6"
  then show "b AND 0xc0 = 0xc0" by (intro byte_eqI) (simp_all add: bit_simps)
qed

lemma mask_7f_iff: "(b :: uint8_t) AND 0x7f = b \<longleftrightarrow> \<not> bit b 7"
proof
  assume e: "b AND 0x7f = b"
  have "\<not> bit (b AND 0x7f) 7" by (simp add: bit_simps)
  then show "\<not> bit b 7" unfolding e .
next
  assume "\<not> bit b 7"
  then show "b AND 0x7f = b" by (intro byte_eqI) (simp_all add: bit_simps)
qed

lemma mask_80_iff: "(b :: uint8_t) AND 0x80 = 0 \<longleftrightarrow> \<not> bit b 7"
proof
  assume e: "b AND 0x80 = 0"
  have "bit (b AND 0x80) 7 = bit b 7" by (simp add: bit_simps)
  then show "\<not> bit b 7" unfolding e by simp
next
  assume "\<not> bit b 7"
  then show "b AND 0x80 = 0" by (intro byte_eqI) (simp_all add: bit_simps)
qed

lemma loop_reaches_le: "loop_reaches u8str i j \<Longrightarrow> i \<le> j"
  by (induction rule: loop_reaches.induct) simp_all

lemma fails_now:
  assumes "i < length u8str" "fails_at u8str i"
  shows "\<exists>j. loop_reaches u8str i j \<and> j < length u8str \<and> fails_at u8str j"
  using assms loop_reaches.here by blast

lemma fails_later_iff:
  assumes "i < length u8str" "\<not> fails_at u8str i"
  shows "(\<exists>j. loop_reaches u8str i j \<and> j < length u8str \<and> fails_at u8str j) \<longleftrightarrow>
         (\<exists>j. loop_reaches u8str (i + classified_length (u8str ! i)) j \<and> j < length u8str \<and>
              fails_at u8str j)"
proof
  assume "\<exists>j. loop_reaches u8str i j \<and> j < length u8str \<and> fails_at u8str j"
  then obtain j where j: "loop_reaches u8str i j" "j < length u8str" "fails_at u8str j" by blast
  from j(1) show "\<exists>j. loop_reaches u8str (i + classified_length (u8str ! i)) j \<and>
      j < length u8str \<and> fails_at u8str j"
  proof (cases rule: loop_reaches.cases)
    case here
    with j(3) assms(2) show ?thesis by simp
  next
    case step
    with j(2,3) show ?thesis by blast
  qed
next
  assume "\<exists>j. loop_reaches u8str (i + classified_length (u8str ! i)) j \<and> j < length u8str \<and>
              fails_at u8str j"
  then show "\<exists>j. loop_reaches u8str i j \<and> j < length u8str \<and> fails_at u8str j"
    using assms loop_reaches.step by blast
qed

lemma never_fails_at_end:
  assumes "\<not> i < length u8str"
  shows "\<not> (\<exists>j. loop_reaches u8str i j \<and> j < length u8str \<and> fails_at u8str j)"
  using assms loop_reaches_le by fastforce

lemma lead_cases:
  fixes b :: uint8_t
  obtains (four) "b AND 0xf0 = 0xf0" "classified_length b = 4" "\<not> stray_continuation b"
  | (three) "b AND 0xf0 \<noteq> 0xf0" "b AND 0xe0 = 0xe0" "classified_length b = 3"
      "\<not> stray_continuation b"
  | (two) "b AND 0xf0 \<noteq> 0xf0" "b AND 0xe0 \<noteq> 0xe0" "b AND 0xc0 = 0xc0"
      "classified_length b = 2" "\<not> stray_continuation b"
  | (one) "b AND 0xf0 \<noteq> 0xf0" "b AND 0xe0 \<noteq> 0xe0" "b AND 0xc0 \<noteq> 0xc0" "b AND 0x7f = b"
      "classified_length b = 1" "\<not> stray_continuation b"
  | (stray) "b AND 0xf0 \<noteq> 0xf0" "b AND 0xe0 \<noteq> 0xe0" "b AND 0xc0 \<noteq> 0xc0" "b AND 0x7f \<noteq> b"
      "stray_continuation b"
proof (cases "b AND 0xf0 = 0xf0")
  case True
  then show ?thesis using four by (simp add: classified_length_def stray_continuation_def)
next
  case f4: False
  show ?thesis
  proof (cases "b AND 0xe0 = 0xe0")
    case True
    with f4 show ?thesis using three by (simp add: classified_length_def stray_continuation_def)
  next
    case f3: False
    show ?thesis
    proof (cases "b AND 0xc0 = 0xc0")
      case True
      with f4 f3 show ?thesis using two
        by (simp add: classified_length_def stray_continuation_def)
    next
      case f2: False
      show ?thesis
      proof (cases "b AND 0x7f = b")
        case True
        with f4 f3 f2 show ?thesis using one
          by (simp add: classified_length_def stray_continuation_def mask_7f_iff mask_80_iff)
      next
        case False
        with f4 f3 f2 show ?thesis using stray
          by (simp add: classified_length_def stray_continuation_def mask_7f_iff mask_80_iff)
      qed
    qed
  qed
qed

lemma little_endian_fails_iff:
  "fst (convert_u8str_to_u32str_little_endian_from u8str i target) = False \<longleftrightarrow>
     (\<exists>j. loop_reaches u8str i j \<and> j < length u8str \<and> fails_at u8str j)"
proof (induction u8str i target rule: convert_u8str_to_u32str_little_endian_from.induct)
  case (1 u8str i target)
  show ?case
  proof (cases "i < length u8str")
    case False
    then show ?thesis
      using never_fails_at_end[OF False]
      by (subst convert_u8str_to_u32str_little_endian_from.simps) simp
  next
    case inside: True
    show ?thesis
    proof (cases "u8str ! i" rule: lead_cases)
      case four
      show ?thesis
      proof (cases "length u8str \<le> i + 3")
        case True
        then have "fails_at u8str i" by (simp add: fails_at_def four)
        from fails_now[OF inside this] show ?thesis
          using inside four True
          by (subst convert_u8str_to_u32str_little_endian_from.simps) simp
      next
        case False
        then have nf: "\<not> fails_at u8str i" by (simp add: fails_at_def four)
        show ?thesis
          using "1.IH"(1)[OF inside four(1) False] fails_later_iff[OF inside nf] inside four False
          by (subst convert_u8str_to_u32str_little_endian_from.simps) simp
      qed
    next
      case three
      show ?thesis
      proof (cases "length u8str \<le> i + 2")
        case True
        then have "fails_at u8str i" by (simp add: fails_at_def three)
        from fails_now[OF inside this] show ?thesis
          using inside three True
          by (subst convert_u8str_to_u32str_little_endian_from.simps) simp
      next
        case False
        then have nf: "\<not> fails_at u8str i" by (simp add: fails_at_def three)
        show ?thesis
          using "1.IH"(2)[OF inside three(1,2) False] fails_later_iff[OF inside nf] inside three False
          by (subst convert_u8str_to_u32str_little_endian_from.simps) simp
      qed
    next
      case two
      show ?thesis
      proof (cases "length u8str \<le> i + 1")
        case True
        then have "fails_at u8str i" by (simp add: fails_at_def two)
        from fails_now[OF inside this] show ?thesis
          using inside two True
          by (subst convert_u8str_to_u32str_little_endian_from.simps) simp
      next
        case False
        then have nf: "\<not> fails_at u8str i" by (simp add: fails_at_def two)
        show ?thesis
          using "1.IH"(3)[OF inside two(1,2,3) False] fails_later_iff[OF inside nf] inside two False
          by (subst convert_u8str_to_u32str_little_endian_from.simps) simp
      qed
    next
      case one
      from inside have nf: "\<not> fails_at u8str i" by (simp add: fails_at_def one)
      show ?thesis
        using "1.IH"(4)[OF inside one(1,2,3,4)] fails_later_iff[OF inside nf] inside one
        by (subst convert_u8str_to_u32str_little_endian_from.simps) simp
    next
      case stray
      then have "fails_at u8str i" by (simp add: fails_at_def)
      from fails_now[OF inside this] show ?thesis
        using inside stray
        by (subst convert_u8str_to_u32str_little_endian_from.simps) simp
    qed
  qed
qed

lemma big_endian_fails_iff:
  "fst (convert_u8str_to_u32str_big_endian_from u8str i target) = False \<longleftrightarrow>
     (\<exists>j. loop_reaches u8str i j \<and> j < length u8str \<and> fails_at u8str j)"
proof (induction u8str i target rule: convert_u8str_to_u32str_big_endian_from.induct)
  case (1 u8str i target)
  show ?case
  proof (cases "i < length u8str")
    case False
    then show ?thesis
      using never_fails_at_end[OF False]
      by (subst convert_u8str_to_u32str_big_endian_from.simps) simp
  next
    case inside: True
    show ?thesis
    proof (cases "u8str ! i" rule: lead_cases)
      case four
      show ?thesis
      proof (cases "length u8str \<le> i + 3")
        case True
        then have "fails_at u8str i" by (simp add: fails_at_def four)
        from fails_now[OF inside this] show ?thesis
          using inside four True
          by (subst convert_u8str_to_u32str_big_endian_from.simps) simp
      next
        case False
        then have nf: "\<not> fails_at u8str i" by (simp add: fails_at_def four)
        show ?thesis
          using "1.IH"(1)[OF inside four(1) False] fails_later_iff[OF inside nf] inside four False
          by (subst convert_u8str_to_u32str_big_endian_from.simps) simp
      qed
    next
      case three
      show ?thesis
      proof (cases "length u8str \<le> i + 2")
        case True
        then have "fails_at u8str i" by (simp add: fails_at_def three)
        from fails_now[OF inside this] show ?thesis
          using inside three True
          by (subst convert_u8str_to_u32str_big_endian_from.simps) simp
      next
        case False
        then have nf: "\<not> fails_at u8str i" by (simp add: fails_at_def three)
        show ?thesis
          using "1.IH"(2)[OF inside three(1,2) False] fails_later_iff[OF inside nf] inside three False
          by (subst convert_u8str_to_u32str_big_endian_from.simps) simp
      qed
    next
      case two
      show ?thesis
      proof (cases "length u8str \<le> i + 1")
        case True
        then have "fails_at u8str i" by (simp add: fails_at_def two)
        from fails_now[OF inside this] show ?thesis
          using inside two True
          by (subst convert_u8str_to_u32str_big_endian_from.simps) simp
      next
        case False
        then have nf: "\<not> fails_at u8str i" by (simp add: fails_at_def two)
        show ?thesis
          using "1.IH"(3)[OF inside two(1,2,3) False] fails_later_iff[OF inside nf] inside two False
          by (subst convert_u8str_to_u32str_big_endian_from.simps) simp
      qed
    next
      case one
      from inside have nf: "\<not> fails_at u8str i" by (simp add: fails_at_def one)
      show ?thesis
        using "1.IH"(4)[OF inside one(1,2,3,4)] fails_later_iff[OF inside nf] inside one
        by (subst convert_u8str_to_u32str_big_endian_from.simps) simp
    next
      case stray
      then have "fails_at u8str i" by (simp add: fails_at_def)
      from fails_now[OF inside this] show ?thesis
        using inside stray
        by (subst convert_u8str_to_u32str_big_endian_from.simps) simp
    qed
  qed
qed

lemmas lead_masks = mask_f0_iff mask_e0_iff mask_c0_iff mask_7f_iff

lemma decode_one_byte_le:
  assumes "v < 0x80"
  shows "convert_u8str_to_u32str_little_endian_from [ucast (v :: uint32_t)] 0 t =
           (True, t @ [u32_char_of UTF_ENDIAN_LITTLE_ENDIAN v])"
  apply (simp add: convert_u8str_to_u32str_little_endian_from.simps lead_masks bit_simps
      below_0x80[OF assms] u32_char_of_def)
  apply (intro conjI; rule byte_eqI; simp add: bit_simps below_0x80[OF assms])
  done

lemma decode_two_bytes_le:
  assumes "v < 0x800"
  shows "convert_u8str_to_u32str_little_endian_from
           [ucast (((drop_bit 6 v) AND 0x1f) OR 0xc0), ucast (((v :: uint32_t) AND 0x3f) OR 0x80)] 0 t =
           (True, t @ [u32_char_of UTF_ENDIAN_LITTLE_ENDIAN v])"
  apply (simp add: convert_u8str_to_u32str_little_endian_from.simps lead_masks bit_simps
      below_0x800[OF assms] u32_char_of_def)
  apply (intro conjI; rule byte_eqI; simp add: bit_simps below_0x800[OF assms])
  done

lemma decode_three_bytes_le:
  assumes "v < 0x10000"
  shows "convert_u8str_to_u32str_little_endian_from
           [ucast (((drop_bit 12 v) AND 0x0f) OR 0xe0),
            ucast (((drop_bit 6 v) AND 0x3f) OR 0x80),
            ucast (((v :: uint32_t) AND 0x3f) OR 0x80)] 0 t =
           (True, t @ [u32_char_of UTF_ENDIAN_LITTLE_ENDIAN v])"
  apply (simp add: convert_u8str_to_u32str_little_endian_from.simps lead_masks bit_simps
      below_0x10000[OF assms] u32_char_of_def)
  apply (intro conjI; rule byte_eqI; simp add: bit_simps below_0x10000[OF assms])
  done

lemma decode_four_bytes_le:
  assumes "v < 0x110000"
  shows "convert_u8str_to_u32str_little_endian_from
           [ucast (((drop_bit 18 v) AND 0x07) OR 0xf0),
            ucast (((drop_bit 12 v) AND 0x3f) OR 0x80),
            ucast (((drop_bit 6 v) AND 0x3f) OR 0x80),
            ucast (((v :: uint32_t) AND 0x3f) OR 0x80)] 0 t =
           (True, t @ [u32_char_of UTF_ENDIAN_LITTLE_ENDIAN v])"
  apply (simp add: convert_u8str_to_u32str_little_endian_from.simps lead_masks bit_simps
      below_0x110000[OF assms] u32_char_of_def)
  apply (intro conjI; rule byte_eqI; simp add: bit_simps below_0x110000[OF assms])
  done

lemma decode_one_byte_be:
  assumes "v < 0x80"
  shows "convert_u8str_to_u32str_big_endian_from [ucast (v :: uint32_t)] 0 t =
           (True, t @ [u32_char_of UTF_ENDIAN_BIG_ENDIAN v])"
  apply (simp add: convert_u8str_to_u32str_big_endian_from.simps lead_masks bit_simps
      below_0x80[OF assms] u32_char_of_def)
  apply (intro conjI; rule byte_eqI; simp add: bit_simps below_0x80[OF assms])
  done

lemma decode_two_bytes_be:
  assumes "v < 0x800"
  shows "convert_u8str_to_u32str_big_endian_from
           [ucast (((drop_bit 6 v) AND 0x1f) OR 0xc0), ucast (((v :: uint32_t) AND 0x3f) OR 0x80)] 0 t =
           (True, t @ [u32_char_of UTF_ENDIAN_BIG_ENDIAN v])"
  apply (simp add: convert_u8str_to_u32str_big_endian_from.simps lead_masks bit_simps
      below_0x800[OF assms] u32_char_of_def)
  apply (intro conjI; rule byte_eqI; simp add: bit_simps below_0x800[OF assms])
  done

lemma decode_three_bytes_be:
  assumes "v < 0x10000"
  shows "convert_u8str_to_u32str_big_endian_from
           [ucast (((drop_bit 12 v) AND 0x0f) OR 0xe0),
            ucast (((drop_bit 6 v) AND 0x3f) OR 0x80),
            ucast (((v :: uint32_t) AND 0x3f) OR 0x80)] 0 t =
           (True, t @ [u32_char_of UTF_ENDIAN_BIG_ENDIAN v])"
  apply (simp add: convert_u8str_to_u32str_big_endian_from.simps lead_masks bit_simps
      below_0x10000[OF assms] u32_char_of_def)
  apply (intro conjI; rule byte_eqI; simp add: bit_simps below_0x10000[OF assms])
  done

lemma decode_four_bytes_be:
  assumes "v < 0x110000"
  shows "convert_u8str_to_u32str_big_endian_from
           [ucast (((drop_bit 18 v) AND 0x07) OR 0xf0),
            ucast (((drop_bit 12 v) AND 0x3f) OR 0x80),
            ucast (((drop_bit 6 v) AND 0x3f) OR 0x80),
            ucast (((v :: uint32_t) AND 0x3f) OR 0x80)] 0 t =
           (True, t @ [u32_char_of UTF_ENDIAN_BIG_ENDIAN v])"
  apply (simp add: convert_u8str_to_u32str_big_endian_from.simps lead_masks bit_simps
      below_0x110000[OF assms] u32_char_of_def)
  apply (intro conjI; rule byte_eqI; simp add: bit_simps below_0x110000[OF assms])
  done

lemma decode_pushed_le:
  assumes "v < 0x110000"
  shows "convert_u8str_to_u32str_little_endian_from (pushed_u32 v) 0 t =
           (True, t @ [u32_char_of UTF_ENDIAN_LITTLE_ENDIAN v])"
proof -
  consider (a) "v < 0x80" | (b) "\<not> v < 0x80" "v < 0x800"
    | (c) "\<not> v < 0x80" "\<not> v < 0x800" "v < 0x10000"
    | (d) "\<not> v < 0x80" "\<not> v < 0x800" "\<not> v < 0x10000"
    by blast
  then show ?thesis
  proof cases
    case a
    then show ?thesis using decode_one_byte_le[OF a] by (simp add: pushed_u32_def)
  next
    case b
    then show ?thesis using decode_two_bytes_le[OF b(2)] by (simp add: pushed_u32_def)
  next
    case c
    then show ?thesis using decode_three_bytes_le[OF c(3)] by (simp add: pushed_u32_def)
  next
    case d
    then show ?thesis using decode_four_bytes_le[OF assms] assms by (simp add: pushed_u32_def)
  qed
qed

lemma decode_pushed_be:
  assumes "v < 0x110000"
  shows "convert_u8str_to_u32str_big_endian_from (pushed_u32 v) 0 t =
           (True, t @ [u32_char_of UTF_ENDIAN_BIG_ENDIAN v])"
proof -
  consider (a) "v < 0x80" | (b) "\<not> v < 0x80" "v < 0x800"
    | (c) "\<not> v < 0x80" "\<not> v < 0x800" "v < 0x10000"
    | (d) "\<not> v < 0x80" "\<not> v < 0x800" "\<not> v < 0x10000"
    by blast
  then show ?thesis
  proof cases
    case a
    then show ?thesis using decode_one_byte_be[OF a] by (simp add: pushed_u32_def)
  next
    case b
    then show ?thesis using decode_two_bytes_be[OF b(2)] by (simp add: pushed_u32_def)
  next
    case c
    then show ?thesis using decode_three_bytes_be[OF c(3)] by (simp add: pushed_u32_def)
  next
    case d
    then show ?thesis using decode_four_bytes_be[OF assms] assms by (simp add: pushed_u32_def)
  qed
qed

lemma codepoint_below_0x110000:
  fixes cp :: uint32_t
  assumes "cp \<le> 0xD7FF \<or> (0xE000 \<le> cp \<and> cp \<le> 0x10FFFF)"
  shows "cp < 0x110000"
  using assms by (auto simp add: word_less_nat_alt word_le_nat_alt)

text \<open>
  Claim C1. For every code point \<open>cp\<close> in \<open>[0, 0xD7FF]\<close> or \<open>[0xE000, 0x10FFFF]\<close>
  and both byte orders: the string of the one character that holds \<open>cp\<close> in that byte
  order is encoded to UTF-8 with success, and decoding the bytes with the same byte order
  and without a byte order mark succeeds and gives back that string.
\<close>

theorem roundtrip_single_codepoint:
  assumes "cp \<le> 0xD7FF \<or> (0xE000 \<le> cp \<and> cp \<le> 0x10FFFF)"
    and "endian = UTF_ENDIAN_BIG_ENDIAN \<or> endian = UTF_ENDIAN_LITTLE_ENDIAN"
  shows "u32_endian_value (u32_char_of endian cp) endian = Some cp \<and>
         (\<exists>u8. to_u8string_u32 [u32_char_of endian cp] endian target = (True, u8) \<and>
               to_u32string u8 target' endian False = (True, [u32_char_of endian cp]))"
proof -
  from assms(1) have lt: "cp < 0x110000" by (rule codepoint_below_0x110000)
  from assms(2) have sup: "endian \<noteq> UTF_ENDIAN_UNSUPPORTED" by auto
  have val: "u32_endian_value (u32_char_of endian cp) endian = Some cp"
    using sup by (rule u32_endian_value_char_of)
  have enc: "to_u8string_u32 [u32_char_of endian cp] endian target = (True, pushed_u32 cp)"
    using val lt by (rule to_u8string_u32_single)
  have dec: "to_u32string (pushed_u32 cp) target' endian False = (True, [u32_char_of endian cp])"
    using assms(2) decode_pushed_le[OF lt, of "[]"] decode_pushed_be[OF lt, of "[]"]
    by (auto simp add: to_u32string_def convert_u8str_to_u32str_little_endian_def
        convert_u8str_to_u32str_big_endian_def)
  from val enc dec show ?thesis by blast
qed

theorem roundtrip_single_codepoint_witness:
  "((0x20AC :: uint32_t) \<le> 0xD7FF \<or> ((0xE000 :: uint32_t) \<le> 0x20AC \<and> (0x20AC :: uint32_t) \<le> 0x10FFFF)) \<and>
   u32_char_of UTF_ENDIAN_LITTLE_ENDIAN 0x20AC = \<lparr>v32_0 = 0xAC, v32_1 = 0x20, v32_2 = 0x00, v32_3 = 0x00\<rparr> \<and>
   to_u8string_u32 [\<lparr>v32_0 = 0xAC, v32_1 = 0x20, v32_2 = 0x00, v32_3 = 0x00\<rparr>]
       UTF_ENDIAN_LITTLE_ENDIAN [] = (True, [0xE2, 0x82, 0xAC]) \<and>
   to_u32string [0xE2, 0x82, 0xAC] [] UTF_ENDIAN_LITTLE_ENDIAN False =
       (True, [\<lparr>v32_0 = 0xAC, v32_1 = 0x20, v32_2 = 0x00, v32_3 = 0x00\<rparr>])"
  using roundtrip_single_codepoint[of "0x20AC" UTF_ENDIAN_LITTLE_ENDIAN "[]" "[]"]
  by (simp add: u32_char_of_def to_u8string_u32_def u32_endian_value_def)

text \<open>
  Claim C5. The decoder returns \<open>false\<close> exactly when some index that the loop reaches
  from 0 lies inside the input and its byte is a stray continuation byte or its sequence
  is longer than the rest of the input, whatever the target byte order and the request
  for a byte order mark. So the bytes behind a lead byte are never tested. The single byte
  \<open>0x80\<close> fails; a lead byte of a three-byte sequence alone fails. \<open>C2 41\<close> is accepted
  although \<open>41\<close> is no continuation byte, and the overlong forms \<open>C0 80\<close> (for 0)
  and \<open>F0 80 82 80\<close> (for \<open>0x80\<close>) are accepted.
\<close>

theorem utf8_decoder_fails_iff:
  "(fst (to_u32string u8str target target_endian add_bom) = False \<longleftrightarrow>
      (\<exists>j. loop_reaches u8str 0 j \<and> j < length u8str \<and> fails_at u8str j)) \<and>
   fst (to_u32string [0x80] target target_endian add_bom) = False \<and>
   (lead AND 0xf0 \<noteq> 0xf0 \<and> lead AND 0xe0 = 0xe0 \<longrightarrow>
      fst (to_u32string [lead] target target_endian add_bom) = False) \<and>
   to_u32string [0xC2, 0x41] target UTF_ENDIAN_BIG_ENDIAN False =
     (True, [\<lparr>v32_0 = 0x00, v32_1 = 0x00, v32_2 = 0x00, v32_3 = 0x81\<rparr>]) \<and>
   to_u32string [0xC0, 0x80] target UTF_ENDIAN_BIG_ENDIAN False =
     (True, [\<lparr>v32_0 = 0x00, v32_1 = 0x00, v32_2 = 0x00, v32_3 = 0x00\<rparr>]) \<and>
   to_u32string [0xF0, 0x80, 0x82, 0x80] target UTF_ENDIAN_LITTLE_ENDIAN False =
     (True, [\<lparr>v32_0 = 0x80, v32_1 = 0x00, v32_2 = 0x00, v32_3 = 0x00\<rparr>])"
proof -
  have iff: "\<And>u8str. fst (to_u32string u8str target target_endian add_bom) = False \<longleftrightarrow>
      (\<exists>j. loop_reaches u8str 0 j \<and> j < length u8str \<and> fails_at u8str j)"
    by (cases "target_endian = UTF_ENDIAN_LITTLE_ENDIAN")
      (simp_all add: to_u32string_def convert_u8str_to_u32str_little_endian_def
        convert_u8str_to_u32str_big_endian_def little_endian_fails_iff[simplified]
        big_endian_fails_iff[simplified])
  have stray: "fst (to_u32string [0x80] target target_endian add_bom) = False"
    unfolding iff
    by (rule exI[of _ 0]) (simp add: loop_reaches.here fails_at_def stray_continuation_def)
  have trunc: "fst (to_u32string [lead] target target_endian add_bom) = False"
    if "lead AND 0xf0 \<noteq> 0xf0 \<and> lead AND 0xe0 = 0xe0"
    unfolding iff using that
    by (intro exI[of _ 0]) (simp add: loop_reaches.here fails_at_def classified_length_def)
  have ex: "to_u32string [0xC2, 0x41] target UTF_ENDIAN_BIG_ENDIAN False =
     (True, [\<lparr>v32_0 = 0x00, v32_1 = 0x00, v32_2 = 0x00, v32_3 = 0x81\<rparr>])"
    "to_u32string [0xC0, 0x80] target UTF_ENDIAN_BIG_ENDIAN False =
     (True, [\<lparr>v32_0 = 0x00, v32_1 = 0x00, v32_2 = 0x00, v32_3 = 0x00\<rparr>])"
    "to_u32string [0xF0, 0x80, 0x82, 0x80] target UTF_ENDIAN_LITTLE_ENDIAN False =
     (True, [\<lparr>v32_0 = 0x80, v32_1 = 0x00, v32_2 = 0x00, v32_3 = 0x00\<rparr>])"
    by (simp_all add: to_u32string_def convert_u8str_to_u32str_little_endian_def
        convert_u8str_to_u32str_big_endian_def
        convert_u8str_to_u32str_little_endian_from.simps
        convert_u8str_to_u32str_big_endian_from.simps)
  from iff stray trunc ex show ?thesis by blast
qed

theorem utf8_decoder_fails_iff_witness:
  "loop_reaches [0x41, 0xE2, 0x82] 0 1 \<and> (1 :: nat) < length [0x41 :: uint8_t, 0xE2, 0x82] \<and>
   fails_at [0x41, 0xE2, 0x82] 1 \<and>
   fst (to_u32string [0x41, 0xE2, 0x82] [] UTF_ENDIAN_BIG_ENDIAN False) = False \<and>
   (0xE2 :: uint8_t) AND 0xf0 \<noteq> 0xf0 \<and> (0xE2 :: uint8_t) AND 0xe0 = 0xe0 \<and>
   fst (to_u32string [0xE2] [] UTF_ENDIAN_BIG_ENDIAN False) = False"
proof -
  have f0: "\<not> fails_at [0x41, 0xE2, 0x82] 0"
    by (simp add: fails_at_def stray_continuation_def classified_length_def)
  have "loop_reaches [0x41, 0xE2, 0x82] (0 + classified_length ([0x41, 0xE2, 0x82] ! 0)) 1"
    by (simp add: classified_length_def loop_reaches.here)
  with f0 have r: "loop_reaches [0x41, 0xE2, 0x82] 0 1"
    using loop_reaches.step[of 0 "[0x41, 0xE2, 0x82]" 1] by simp
  have f1: "fails_at [0x41, 0xE2, 0x82] 1"
    by (simp add: fails_at_def stray_continuation_def classified_length_def)
  have m: "(0xE2 :: uint8_t) AND 0xf0 \<noteq> 0xf0 \<and> (0xE2 :: uint8_t) AND 0xe0 = 0xe0" by simp
  from r f1 have "\<exists>j. loop_reaches [0x41, 0xE2, 0x82] 0 j \<and> j < length [0x41 :: uint8_t, 0xE2, 0x82] \<and>
      fails_at [0x41, 0xE2, 0x82] j"
    by (intro exI[of _ 1]) simp
  with r f1 m show ?thesis
    using utf8_decoder_fails_iff[of "[0x41, 0xE2, 0x82]" "[]" UTF_ENDIAN_BIG_ENDIAN False "0xE2"]
    by simp
qed

lemma four_byte_value_bound:
  fixes b0 b1 b2 b3 :: uint8_t
  defines "v \<equiv> (push_bit 24 (ucast (0 :: uint8_t)) OR
                 push_bit 16 (ucast (push_bit 2 (b0 AND 0x07) OR drop_bit 4 (b1 AND 0x30))) OR
                 push_bit 8 (ucast (push_bit 4 (b1 AND 0x0f) OR drop_bit 2 (b2 AND 0x3c))) OR
                 ucast (push_bit 6 (b2 AND 0x03) OR (b3 AND 0x3f)) :: uint32_t)"
  shows "v \<le> 0x1FFFFF"
proof -
  have "v AND 0x1FFFFF = v"
    unfolding v_def by (rule word32_eq_bytesI; rule byte_eqI; simp add: bit_simps)
  then show ?thesis using word_and_le1[of v "0x1FFFFF"] by simp
qed

text \<open>
  Claim C10. The bytes \<open>F7 BF BF BF\<close> are decoded with success in both byte orders, and
  the character produced holds the value \<open>0x1FFFFF\<close>, which is above \<open>0x10FFFF\<close>.
  More generally any four bytes whose first matches the mask \<open>0xF0\<close> are decoded with
  success to one character, whose value is at most \<open>0x1FFFFF\<close>: there is no test
  against \<open>0x10FFFF\<close>.
\<close>

theorem utf8_decoder_yields_value_above_0x10FFFF:
  "to_u32string [0xF7, 0xBF, 0xBF, 0xBF] target UTF_ENDIAN_BIG_ENDIAN False =
     (True, [\<lparr>v32_0 = 0x00, v32_1 = 0x1F, v32_2 = 0xFF, v32_3 = 0xFF\<rparr>]) \<and>
   u32_endian_value \<lparr>v32_0 = 0x00, v32_1 = 0x1F, v32_2 = 0xFF, v32_3 = 0xFF\<rparr>
     UTF_ENDIAN_BIG_ENDIAN = Some 0x1FFFFF \<and>
   to_u32string [0xF7, 0xBF, 0xBF, 0xBF] target UTF_ENDIAN_LITTLE_ENDIAN False =
     (True, [\<lparr>v32_0 = 0xFF, v32_1 = 0xFF, v32_2 = 0x1F, v32_3 = 0x00\<rparr>]) \<and>
   u32_endian_value \<lparr>v32_0 = 0xFF, v32_1 = 0xFF, v32_2 = 0x1F, v32_3 = 0x00\<rparr>
     UTF_ENDIAN_LITTLE_ENDIAN = Some 0x1FFFFF \<and>
   (0x10FFFF :: uint32_t) < 0x1FFFFF \<and>
   (b0 AND 0xf0 = 0xf0 \<and>
    (endian = UTF_ENDIAN_BIG_ENDIAN \<or> endian = UTF_ENDIAN_LITTLE_ENDIAN) \<longrightarrow>
      (\<exists>c v. to_u32string [b0, b1, b2, b3] target endian False = (True, [c]) \<and>
             u32_endian_value c endian = Some v \<and> v \<le> 0x1FFFFF))"
proof (intro conjI impI)
  assume a: "b0 AND 0xf0 = 0xf0 \<and>
    (endian = UTF_ENDIAN_BIG_ENDIAN \<or> endian = UTF_ENDIAN_LITTLE_ENDIAN)"
  then consider (be) "endian = UTF_ENDIAN_BIG_ENDIAN" | (le) "endian = UTF_ENDIAN_LITTLE_ENDIAN"
    by blast
  then show "\<exists>c v. to_u32string [b0, b1, b2, b3] target endian False = (True, [c]) \<and>
             u32_endian_value c endian = Some v \<and> v \<le> 0x1FFFFF"
  proof cases
    case be
    with a show ?thesis
      using four_byte_value_bound[of b0 b1 b2 b3]
      by (simp add: to_u32string_def convert_u8str_to_u32str_big_endian_def
          convert_u8str_to_u32str_big_endian_from.simps u32_endian_value_def)
  next
    case le
    with a show ?thesis
      using four_byte_value_bound[of b0 b1 b2 b3]
      by (simp add: to_u32string_def convert_u8str_to_u32str_little_endian_def
          convert_u8str_to_u32str_little_endian_from.simps u32_endian_value_def)
  qed
qed (simp_all add: to_u32string_def convert_u8str_to_u32str_little_endian_def
        convert_u8str_to_u32str_big_endian_def
        convert_u8str_to_u32str_little_endian_from.simps
        convert_u8str_to_u32str_big_endian_from.simps u32_endian_value_def)

theorem utf8_decoder_yields_value_above_0x10FFFF_witness:
  "(0xF4 :: uint8_t) AND 0xf0 = 0xf0 \<and>
   to_u32string [0xF4, 0x90, 0x80, 0x80] [] UTF_ENDIAN_BIG_ENDIAN False =
     (True, [\<lparr>v32_0 = 0x00, v32_1 = 0x11, v32_2 = 0x00, v32_3 = 0x00\<rparr>]) \<and>
   u32_endian_value \<lparr>v32_0 = 0x00, v32_1 = 0x11, v32_2 = 0x00, v32_3 = 0x00\<rparr>
     UTF_ENDIAN_BIG_ENDIAN = Some 0x110000 \<and>
   (\<exists>c v. to_u32string [0xF4, 0x90, 0x80, 0x80] [] UTF_ENDIAN_BIG_ENDIAN False = (True, [c]) \<and>
          u32_endian_value c UTF_ENDIAN_BIG_ENDIAN = Some v \<and> v \<le> 0x1FFFFF)"
  using utf8_decoder_yields_value_above_0x10FFFF
    [of "[]" "0xF4" UTF_ENDIAN_BIG_ENDIAN "0x90" "0x80" "0x80"]
  by (simp add: to_u32string_def convert_u8str_to_u32str_big_endian_def
      convert_u8str_to_u32str_big_endian_from.simps u32_endian_value_def)

end
